theory Spec2Isabelle
  imports Complex_Main
begin

section \<open>Constants of the instruction format (parallel/model.py)\<close>

definition NUM_SLOTS :: nat where "NUM_SLOTS = 64"
definition NUM_OPCODES :: nat where "NUM_OPCODES = 33"
definition NUM_MODES :: nat where "NUM_MODES = 8"
definition NUM_REGISTERS :: nat where "NUM_REGISTERS = 32"
definition IMM_BINS :: nat where "IMM_BINS = 256"

section \<open>The dataset (parallel/train.py, class ParallelDataset)\<close>

text \<open>
  An instruction record of the training file is a JSON object with integer fields; the
  loader reads every field with \<^verbatim>\<open>instr.get(key, 0)\<close>, so a record is a partial map
  from field names to Python integers and a missing key reads as the default.
\<close>

type_synonym instr = "string \<rightharpoonup> int"

definition get_or :: "instr \<Rightarrow> string \<Rightarrow> int \<Rightarrow> int" where
  "get_or d k dflt = (case d k of None \<Rightarrow> dflt | Some v \<Rightarrow> v)"

text \<open>
  One parsed line of the file: the keys \<^verbatim>\<open>context\<close>, \<^verbatim>\<open>prompt\<close>, \<^verbatim>\<open>instructions\<close> and
  \<^verbatim>\<open>category\<close>. For the first three, \<open>None\<close> stands for a key that is absent or
  null (both are falsy in the tests of the loader); for the category, for an absent key.
\<close>

record item =
  item_context :: "string option"
  item_prompt :: "string option"
  item_instructions :: "instr list option"
  item_category :: "string option"

record sample =
  text_of :: string
  instructions :: "instr list"
  category :: string

text \<open>\<^verbatim>\<open>text = item.get('context') or item.get('prompt', '')\<close>: the context when it is a
  non-empty string, the prompt otherwise (the empty string when there is none).\<close>

definition item_text :: "item \<Rightarrow> string" where
  "item_text it =
     (case item_context it of
        Some c \<Rightarrow> (if c \<noteq> [] then c else (case item_prompt it of Some p \<Rightarrow> p | None \<Rightarrow> []))
      | None \<Rightarrow> (case item_prompt it of Some p \<Rightarrow> p | None \<Rightarrow> []))"

definition item_instrs :: "item \<Rightarrow> instr list" where
  "item_instrs it = (case item_instructions it of Some l \<Rightarrow> l | None \<Rightarrow> [])"

definition item_cat :: "item \<Rightarrow> string" where
  "item_cat it = (case item_category it of Some c \<Rightarrow> c | None \<Rightarrow> ''unknown'')"

text \<open>
  The loop of \<^verbatim>\<open>__init__\<close> over the enumerated lines. A line that does not parse
  (\<open>None\<close>) is skipped by the \<^verbatim>\<open>except\<close> clause; the loop breaks at line \<open>i\<close> when
  \<^verbatim>\<open>max_samples\<close> is truthy (given and not 0) and \<open>i \<ge> max_samples\<close>; a record whose text
  or instruction list is falsy is skipped by \<^verbatim>\<open>continue\<close>.
\<close>

fun load_loop :: "nat option \<Rightarrow> nat \<Rightarrow> item option list \<Rightarrow> sample list \<Rightarrow> sample list" where
  "load_loop max_samples i [] samples = samples"
| "load_loop max_samples i (line # rest) samples =
     (if (case max_samples of None \<Rightarrow> False | Some m \<Rightarrow> m \<noteq> 0 \<and> i \<ge> m) then samples
      else (case line of
              None \<Rightarrow> load_loop max_samples (Suc i) rest samples
            | Some it \<Rightarrow>
                (if item_text it = [] \<or> item_instrs it = []
                 then load_loop max_samples (Suc i) rest samples
                 else load_loop max_samples (Suc i) rest
                        (samples @ [\<lparr>text_of = item_text it, instructions = item_instrs it,
                                     category = item_cat it\<rparr>]))))"

definition load_samples :: "nat option \<Rightarrow> item option list \<Rightarrow> sample list" where
  "load_samples max_samples lines = load_loop max_samples 0 lines []"

text \<open>The eight target label lists built by \<^verbatim>\<open>__getitem__\<close>.\<close>

record targets =
  valid :: "int list"
  opcode :: "int list"
  mode :: "int list"
  rd :: "int list"
  rs1 :: "int list"
  rs2 :: "int list"
  has_imm :: "int list"
  imm_bin :: "int list"

definition zero_targets :: "nat \<Rightarrow> targets" where
  "zero_targets num_slots =
     \<lparr>valid = replicate num_slots 0, opcode = replicate num_slots 0,
      mode = replicate num_slots 0, rd = replicate num_slots 0,
      rs1 = replicate num_slots 0, rs2 = replicate num_slots 0,
      has_imm = replicate num_slots 0, imm_bin = replicate num_slots 0\<rparr>"

text \<open>Line 123: \<^verbatim>\<open>targets['imm_bin'][i] = imm % 256\<close>. Python's \<open>%\<close> with a positive
  divisor is the non-negative remainder, as \<open>mod\<close> on \<open>int\<close>.\<close>

definition encode_imm_bin :: "int \<Rightarrow> int" where
  "encode_imm_bin imm = imm mod 256"

text \<open>The body of the fill loop for slot \<open>i\<close> (lines 114 to 123).\<close>

definition fill_slot :: "nat \<Rightarrow> instr \<Rightarrow> targets \<Rightarrow> targets" where
  "fill_slot i ins t =
     t\<lparr>valid := (valid t)[i := get_or ins ''valid'' 0],
       opcode := (opcode t)[i := min (get_or ins ''opcode'' 0) 32],
       mode := (mode t)[i := min (get_or ins ''mode'' 0) 7],
       rd := (rd t)[i := min (get_or ins ''rd'' 0) 31],
       rs1 := (rs1 t)[i := min (get_or ins ''rs1'' 0) 31],
       rs2 := (rs2 t)[i := min (get_or ins ''rs2'' 0) 31],
       has_imm := (has_imm t)[i := get_or ins ''has_imm'' 0],
       imm_bin := (imm_bin t)[i := encode_imm_bin (get_or ins ''imm_bin'' 0)]\<rparr>"

text \<open>\<^verbatim>\<open>for i, instr in enumerate(instructions): if i >= self.num_slots: break; ...\<close>\<close>

fun fill_loop :: "nat \<Rightarrow> nat \<Rightarrow> instr list \<Rightarrow> targets \<Rightarrow> targets" where
  "fill_loop num_slots i [] t = t"
| "fill_loop num_slots i (ins # rest) t =
     (if i \<ge> num_slots then t else fill_loop num_slots (Suc i) rest (fill_slot i ins t))"

text \<open>\<^verbatim>\<open>instructions = sample['instructions'][:self.num_slots]\<close>, then the zero lists, then
  the fill loop. \<open>num_slots\<close> is a slot count, hence a natural number.\<close>

definition getitem_targets :: "nat \<Rightarrow> sample \<Rightarrow> targets" where
  "getitem_targets num_slots s =
     fill_loop num_slots 0 (take num_slots (instructions s)) (zero_targets num_slots)"

text \<open>Byte-level tokens: the UTF-8 bytes of the text (a \<open>string\<close> is its byte list), cut
  to \<open>max_seq_len\<close> and padded with the id 256.\<close>

definition getitem_tokens :: "nat \<Rightarrow> sample \<Rightarrow> nat list" where
  "getitem_tokens max_seq_len s =
     (let tokens = map of_char (take max_seq_len (text_of s))
      in if length tokens < max_seq_len
         then tokens @ replicate (max_seq_len - length tokens) 256 else tokens)"

text \<open>\<^verbatim>\<open>pad_instructions\<close> of generate_training_data.py, on records already converted
  by \<^verbatim>\<open>to_dict\<close>: the generators' own padding record has \<open>valid = 0\<close>.\<close>

definition padding_record :: instr where
  "padding_record =
     [''valid'' \<mapsto> 0, ''opcode'' \<mapsto> 0, ''mode'' \<mapsto> 0, ''rd'' \<mapsto> 0,
      ''rs1'' \<mapsto> 0, ''rs2'' \<mapsto> 0, ''has_imm'' \<mapsto> 0, ''imm_bin'' \<mapsto> 0]"

definition pad_instructions :: "instr list \<Rightarrow> nat \<Rightarrow> instr list" where
  "pad_instructions result slots =
     take slots (result @ replicate (slots - length result) padding_record)"

section \<open>Decoding a predicted slot (parallel/test\_inference.py)\<close>

definition OPCODE_NAMES :: "string list" where
  "OPCODE_NAMES =
     [''NOP'', ''MOV'', ''LD'', ''ST'', ''ALU'', ''ALUI'', ''MULDIV'', ''MULHI'',
      ''BRANCH'', ''JUMP'', ''CALL'', ''RET'', ''COMPARE'', ''SETCC'', ''SEXT'', ''ZEXT'',
      ''SHIFT'', ''SHIFTI'', ''BITOP'', ''BITOPI'', ''LEA'', ''SPECIAL'', ''FLOAT'', ''FLOATI'',
      ''SIMD'', ''SIMDI'', ''DEBUG'', ''HINT'', ''SYS'', ''EXT.CALL'', ''EXT.LOAD'', ''EXT.STORE'',
      ''HALT'']"

text \<open>Decimal text of a number, as an f-string prints it.\<close>

fun str_nat :: "nat \<Rightarrow> string" where
  "str_nat n =
     (if n < 10 then [char_of (48 + n)]
      else str_nat (n div 10) @ [char_of (48 + n mod 10)])"

definition str_int :: "int \<Rightarrow> string" where
  "str_int i = (if i < 0 then CHR ''-'' # str_nat (nat (- i)) else str_nat (nat i))"

text \<open>\<^verbatim>\<open>REGISTER_NAMES = [f"r{i}" for i in range(31)] + ["zero"]\<close>\<close>

definition REGISTER_NAMES :: "string list" where
  "REGISTER_NAMES = map (\<lambda>i. CHR ''r'' # str_nat i) [0..<31] @ [''zero'']"

text \<open>Line 55: \<^verbatim>\<open>imm = imm_bin - 128\<close> (``centered around 128 = 0'').\<close>

definition decode_imm :: "int \<Rightarrow> int" where
  "decode_imm bin = bin - 128"

text \<open>
  \<^verbatim>\<open>decode_instruction\<close>: \<open>None\<close> for a slot predicted as padding, the assembly text
  otherwise. The arguments are the arg-max class indices of the eight heads, hence
  natural numbers; \<open>v\<close> and \<open>h\<close> are the predicted \<open>valid\<close> and \<open>has_imm\<close> classes.
\<close>

definition reg_name :: "nat \<Rightarrow> string" where
  "reg_name r = (if r < length REGISTER_NAMES then REGISTER_NAMES ! r else CHR ''r'' # str_nat r)"

definition decode_instruction ::
  "nat \<Rightarrow> nat \<Rightarrow> nat \<Rightarrow> nat \<Rightarrow> nat \<Rightarrow> nat \<Rightarrow> nat \<Rightarrow> nat \<Rightarrow> string option" where
  "decode_instruction v opc md r_d r_s1 r_s2 h bin =
     (if v = 0 then None
      else
        let opname = (if opc < length OPCODE_NAMES then OPCODE_NAMES ! opc
                      else ''OP'' @ str_nat opc);
            rd_name = reg_name r_d; rs1_name = reg_name r_s1; rs2_name = reg_name r_s2
        in if h \<noteq> 0
           then Some (opname @ ''.'' @ str_nat md @ '' '' @ rd_name @ '', '' @ rs1_name @
                      '', #'' @ str_int (decode_imm (int bin)))
           else Some (opname @ ''.'' @ str_nat md @ '' '' @ rd_name @ '', '' @ rs1_name @
                      '', '' @ rs2_name))"

section \<open>Tensors and the errors of the tensor library\<close>

text \<open>
  What a call into the tensor library can end with besides a value: an \<^verbatim>\<open>IndexError\<close>
  (a label or a token id outside its table), a shape error (the \<^verbatim>\<open>RuntimeError\<close> or
  \<^verbatim>\<open>ValueError\<close> raised on operands that do not fit), and \<open>NotFinite\<close>, which is no
  exception: it stands for a result that is \<open>inf\<close> or \<open>nan\<close>.
\<close>

datatype torch_error = IndexError | ShapeError | NotFinite

definition bind_err :: "torch_error + 'a \<Rightarrow> ('a \<Rightarrow> torch_error + 'b) \<Rightarrow> torch_error + 'b" where
  "bind_err r f = (case r of Inl e \<Rightarrow> Inl e | Inr x \<Rightarrow> f x)"

text \<open>The first error of a list of results, or the list of their values.\<close>

fun collect :: "(torch_error + 'a) list \<Rightarrow> torch_error + 'a list" where
  "collect [] = Inr []"
| "collect (r # rs) = bind_err r (\<lambda>x. bind_err (collect rs) (\<lambda>xs. Inr (x # xs)))"

text \<open>Broadcasting of two dimension sizes: equal, or one of them 1.\<close>

definition broadcast_dim :: "nat \<Rightarrow> nat \<Rightarrow> torch_error + nat" where
  "broadcast_dim a b =
     (if a = b then Inr a else if a = 1 then Inr b else if b = 1 then Inr a
      else Inl ShapeError)"

text \<open>
  A 2-D tensor of shape (dim0, dim1) with its entries in row-major order; entry (i, j) is
  \<open>data ! (i * dim1 + j)\<close>, so \<open>data\<close> has \<open>dim0 * dim1\<close> entries. The labels of one
  head, the validity mask, the per-slot losses and the token ids of a batch are such
  tensors.
\<close>

record 'a tensor2 =
  dim0 :: nat
  dim1 :: nat
  data :: "'a list"

text \<open>The raw scores of one head: shape (batch, num\_slots, classes), row-major, so
  \<open>score_data\<close> has \<open>n_batch * n_slots * n_classes\<close> entries.\<close>

record scores =
  n_batch :: nat
  n_slots :: nat
  n_classes :: nat
  score_data :: "real list"

section \<open>The multi-task loss (parallel/model.py, class ParallelInstructionLoss)\<close>

text \<open>
  Floating-point numbers are modelled by the reals; rounding is outside the model.
\<close>

type_synonym labels = "int tensor2"

text \<open>
  \<^verbatim>\<open>nn.CrossEntropyLoss(reduction='none')\<close> on the scores of one slot and its label:
  the negative log-softmax at the label; 0 for the label \<open>-100\<close> (the default
  \<^verbatim>\<open>ignore_index\<close>); an \<^verbatim>\<open>IndexError\<close> for any other label outside
  \<open>[0, classes)\<close>.
\<close>

definition label_ok :: "nat \<Rightarrow> int \<Rightarrow> bool" where
  "label_ok c target = (target = - 100 \<or> (0 \<le> target \<and> target < int c))"

definition ce_value :: "real list \<Rightarrow> int \<Rightarrow> real" where
  "ce_value logit target =
     (if target = - 100 then 0 else ln (sum_list (map exp logit)) - logit ! nat target)"

definition cross_entropy :: "real list \<Rightarrow> int \<Rightarrow> torch_error + real" where
  "cross_entropy logit target =
     (if label_ok (length logit) target then Inr (ce_value logit target) else Inl IndexError)"

text \<open>
  The criterion on \<open>N\<close> rows of scores and \<open>M\<close> labels: it raises unless \<open>N = M\<close>, and
  on the first label out of range.
\<close>

definition CrossEntropyLoss_none :: "real list list \<Rightarrow> int list \<Rightarrow> torch_error + real list" where
  "CrossEntropyLoss_none logit target =
     (if length logit \<noteq> length target then Inl ShapeError
      else collect (map2 cross_entropy logit target))"

text \<open>
  The criterion object: the dict \<^verbatim>\<open>self.weights\<close> (read at the eight head names only)
  and \<^verbatim>\<open>self.ce_loss\<close>.
\<close>

record loss_module =
  weights :: "string \<Rightarrow> real"
  ce_loss :: "real list list \<Rightarrow> int list \<Rightarrow> torch_error + real list"

definition ParallelInstructionLoss_init ::
  "real \<Rightarrow> real \<Rightarrow> real \<Rightarrow> real \<Rightarrow> real \<Rightarrow> loss_module" where
  "ParallelInstructionLoss_init valid_weight opcode_weight mode_weight register_weight imm_weight =
     \<lparr>weights = (\<lambda>name.
          if name = ''valid'' then valid_weight
          else if name = ''opcode'' then opcode_weight
          else if name = ''mode'' then mode_weight
          else if name = ''rd'' then register_weight
          else if name = ''rs1'' then register_weight
          else if name = ''rs2'' then register_weight
          else if name = ''has_imm'' then imm_weight
          else if name = ''imm_bin'' then imm_weight
          else 0),
      ce_loss = CrossEntropyLoss_none\<rparr>"

text \<open>The criterion built with the default arguments of the constructor.\<close>

definition default_criterion :: loss_module where
  "default_criterion = ParallelInstructionLoss_init 1 2 1 1 (1 / 2)"

definition head_names :: "string list" where
  "head_names = [''valid'', ''opcode'', ''mode'', ''rd'', ''rs1'', ''rs2'', ''has_imm'', ''imm_bin'']"

text \<open>\<^verbatim>\<open>.float()\<close>, \<^verbatim>\<open>.sum()\<close> and the element count.\<close>

definition to_float :: "int tensor2 \<Rightarrow> real tensor2" where
  "to_float t = \<lparr>dim0 = dim0 t, dim1 = dim1 t, data = map real_of_int (data t)\<rparr>"

definition tsum :: "real tensor2 \<Rightarrow> real" where
  "tsum t = sum_list (data t)"

definition numel :: "'a tensor2 \<Rightarrow> nat" where
  "numel t = dim0 t * dim1 t"

text \<open>
  The entries of \<open>t\<close> expanded to the shape (b, s), for a tensor each of whose
  dimensions is the target size or 1: a single column is repeated \<open>s\<close> times, a single
  row \<open>b\<close> times.
\<close>

definition expand2 :: "'a tensor2 \<Rightarrow> nat \<Rightarrow> nat \<Rightarrow> 'a list" where
  "expand2 t b s =
     (if dim0 t = b \<and> dim1 t = s then data t
      else
        let rws = map (\<lambda>i. let row = take (dim1 t) (drop (i * dim1 t) (data t))
                             in if dim1 t = s then row else replicate s (hd row))
                      [0..<dim0 t]
        in if dim0 t = b then concat rws else concat (replicate b (hd rws)))"

text \<open>The element-wise product \<^verbatim>\<open>a * b\<close> with broadcasting; it raises when a
  dimension differs and neither size is 1.\<close>

definition tmul :: "real tensor2 \<Rightarrow> real tensor2 \<Rightarrow> torch_error + real tensor2" where
  "tmul a b =
     bind_err (broadcast_dim (dim0 a) (dim0 b)) (\<lambda>d0.
     bind_err (broadcast_dim (dim1 a) (dim1 b)) (\<lambda>d1.
     Inr \<lparr>dim0 = d0, dim1 = d1, data = map2 (*) (expand2 a d0 d1) (expand2 b d0 d1)\<rparr>))"

text \<open>
  Division of two scalars. A zero divisor does not raise in the tensor library: the
  result is \<open>inf\<close> or \<open>nan\<close>, the outcome \<open>NotFinite\<close>.
\<close>

definition tdiv :: "real \<Rightarrow> real \<Rightarrow> torch_error + real" where
  "tdiv a b = (if b = 0 then Inl NotFinite else Inr (a / b))"

text \<open>\<^verbatim>\<open>.mean()\<close>: the sum over the element count (\<open>nan\<close> on an empty tensor).\<close>

definition tmean :: "real tensor2 \<Rightarrow> torch_error + real" where
  "tmean t = tdiv (tsum t) (real (numel t))"

text \<open>
  Line 320, \<^verbatim>\<open>logits[name].view(-1, logits[name].size(-1))\<close>: the scores as a list of
  rows of \<open>classes\<close> entries, one row per slot of the batch; \<open>slot_scores lg k\<close> is row
  \<open>k\<close>. A view with zero classes cannot infer the row count.
\<close>

definition slot_scores :: "scores \<Rightarrow> nat \<Rightarrow> real list" where
  "slot_scores lg k = take (n_classes lg) (drop (k * n_classes lg) (score_data lg))"

definition view_rows :: "scores \<Rightarrow> torch_error + real list list" where
  "view_rows lg =
     (if n_classes lg = 0 then Inl ShapeError
      else Inr (map (slot_scores lg) [0..<length (score_data lg) div n_classes lg]))"

text \<open>
  Lines 320 to 325: the per-slot loss of one head. The labels are flattened
  (\<^verbatim>\<open>targets[name].view(-1)\<close>), and the result is viewed in the shape of the labels.
\<close>

definition slot_losses :: "loss_module \<Rightarrow> scores \<Rightarrow> labels \<Rightarrow> torch_error + real tensor2" where
  "slot_losses crit lg tg =
     bind_err (view_rows lg) (\<lambda>logit.
     bind_err (ce_loss crit logit (data tg)) (\<lambda>loss.
     Inr \<lparr>dim0 = dim0 tg, dim1 = dim1 tg, data = loss\<rparr>))"

text \<open>Lines 318 to 333: one iteration of the loop, up to the scalar loss of the head:
  the masked average, or the plain mean for the \<open>valid\<close> head.\<close>

definition head_loss ::
  "loss_module \<Rightarrow> string \<Rightarrow> (string \<Rightarrow> scores) \<Rightarrow> (string \<Rightarrow> labels) \<Rightarrow> torch_error + real" where
  "head_loss crit name logits tgts =
     (let valid_mask = to_float (tgts ''valid'')
      in bind_err (slot_losses crit (logits name) (tgts name)) (\<lambda>loss.
         if name \<noteq> ''valid''
         then bind_err (tmul loss valid_mask) (\<lambda>masked.
              tdiv (tsum masked) (tsum valid_mask + 1 / 10 ^ 8))
         else tmean loss))"

text \<open>
  The loop over the head names, threading \<^verbatim>\<open>total_loss\<close> and the dict \<^verbatim>\<open>losses\<close>.
  It ends with the error of the first head that raises or whose loss is not finite.
\<close>

fun forward_loop ::
  "loss_module \<Rightarrow> (string \<Rightarrow> scores) \<Rightarrow> (string \<Rightarrow> labels) \<Rightarrow> string list \<Rightarrow>
   real \<Rightarrow> (string \<rightharpoonup> real) \<Rightarrow> torch_error + (real \<times> (string \<rightharpoonup> real))" where
  "forward_loop crit logits tgts [] total_loss losses = Inr (total_loss, losses)"
| "forward_loop crit logits tgts (name # names) total_loss losses =
     (case head_loss crit name logits tgts of
        Inl e \<Rightarrow> Inl e
      | Inr loss \<Rightarrow>
          forward_loop crit logits tgts names
            (total_loss + weights crit name * loss) (losses(name \<mapsto> loss)))"

definition forward ::
  "loss_module \<Rightarrow> (string \<Rightarrow> scores) \<Rightarrow> (string \<Rightarrow> labels) \<Rightarrow>
   torch_error + (real \<times> (string \<rightharpoonup> real))" where
  "forward crit logits tgts =
     (case forward_loop crit logits tgts head_names 0 Map.empty of
        Inl e \<Rightarrow> Inl e
      | Inr (total_loss, losses) \<Rightarrow> Inr (total_loss, losses(''total'' \<mapsto> total_loss)))"

text \<open>
  A well-formed batch for one head: scores of shape (b, s, c) with at least one class,
  labels of shape (b, s), every label in \<open>[0, c)\<close> or \<open>-100\<close>.
\<close>

definition scores_shape :: "nat \<Rightarrow> nat \<Rightarrow> nat \<Rightarrow> scores \<Rightarrow> bool" where
  "scores_shape b s c lg =
     (n_batch lg = b \<and> n_slots lg = s \<and> n_classes lg = c \<and> length (score_data lg) = b * s * c)"

definition labels_shape :: "nat \<Rightarrow> nat \<Rightarrow> 'a tensor2 \<Rightarrow> bool" where
  "labels_shape b s tg = (dim0 tg = b \<and> dim1 tg = s \<and> length (data tg) = b * s)"

definition labels_in_range :: "nat \<Rightarrow> labels \<Rightarrow> bool" where
  "labels_in_range c tg = list_all (label_ok c) (data tg)"

definition head_ok :: "nat \<Rightarrow> nat \<Rightarrow> scores \<Rightarrow> labels \<Rightarrow> bool" where
  "head_ok b s lg tg =
     (scores_shape b s (n_classes lg) lg \<and> 0 < n_classes lg \<and>
      labels_shape b s tg \<and> labels_in_range (n_classes lg) tg)"

text \<open>A well-formed batch: every head is, with the same batch size and slot count.\<close>

definition batch_ok :: "nat \<Rightarrow> nat \<Rightarrow> (string \<Rightarrow> scores) \<Rightarrow> (string \<Rightarrow> labels) \<Rightarrow> bool" where
  "batch_ok b s logits tgts = list_all (\<lambda>name. head_ok b s (logits name) (tgts name)) head_names"

section \<open>Model selection in the training loop (parallel/train.py, main)\<close>

text \<open>
  What one epoch hands to the selection code: the model after \<^verbatim>\<open>train_epoch\<close> and the
  two validation figures read from \<^verbatim>\<open>val_losses\<close>.
\<close>

record 'm epoch_result =
  model_state :: 'm
  val_total :: real
  val_opcode_acc :: real

record 'm checkpoint =
  ck_epoch :: nat
  ck_model_state_dict :: 'm
  ck_val_loss :: real
  ck_opcode_acc :: real

text \<open>
  The variables of the loop and the file \<^verbatim>\<open>best_model.pt\<close>. \<open>best_val_loss\<close> starts as
  \<^verbatim>\<open>float('inf')\<close>, the value \<open>None\<close>; \<open>epochs_run\<close> counts the iterations entered.
\<close>

record 'm loop_state =
  best_val_loss :: "real option"
  best_opcode_acc :: real
  patience_counter :: nat
  best_model_pt :: "'m checkpoint option"
  epochs_run :: nat

definition init_state :: "'m loop_state" where
  "init_state =
     \<lparr>best_val_loss = None, best_opcode_acc = 0, patience_counter = 0,
      best_model_pt = None, epochs_run = 0\<rparr>"

text \<open>The branch taken when the epoch's opcode accuracy beats the best so far.\<close>

definition make_checkpoint :: "nat \<Rightarrow> 'm epoch_result \<Rightarrow> 'm checkpoint" where
  "make_checkpoint epoch r =
     \<lparr>ck_epoch = epoch, ck_model_state_dict = model_state r,
      ck_val_loss = val_total r, ck_opcode_acc = val_opcode_acc r\<rparr>"

definition save_best :: "nat \<Rightarrow> 'm epoch_result \<Rightarrow> 'm loop_state \<Rightarrow> 'm loop_state" where
  "save_best epoch r s =
     s\<lparr>best_opcode_acc := val_opcode_acc r,
       best_val_loss := Some (val_total r),
       patience_counter := 0,
       best_model_pt := Some (make_checkpoint epoch r)\<rparr>"

text \<open>
  \<^verbatim>\<open>for epoch in range(start_epoch, args.epochs)\<close> over the results of the successive
  epochs; the \<^verbatim>\<open>break\<close> of early stopping ends the recursion.
\<close>

fun main_loop ::
  "int \<Rightarrow> nat \<Rightarrow> 'm epoch_result list \<Rightarrow> 'm loop_state \<Rightarrow> 'm loop_state" where
  "main_loop patience epoch [] s = s"
| "main_loop patience epoch (r # rs) s =
     (let s1 = s\<lparr>epochs_run := Suc (epochs_run s)\<rparr>
      in if val_opcode_acc r > best_opcode_acc s1
         then main_loop patience (Suc epoch) rs (save_best epoch r s1)
         else
           let s2 = s1\<lparr>patience_counter := patience_counter s1 + 1\<rparr>
           in if int (patience_counter s2) \<ge> patience then s2
              else main_loop patience (Suc epoch) rs s2)"


section \<open>The token embedding (parallel/model.py, lines 144 and 361)\<close>

text \<open>
  \<^verbatim>\<open>nn.Embedding(vocab_size, embed_dim, padding_idx=256)\<close>. The layer is the tensor
  library's; its documented behaviour is modelled here: the table has one row per token
  id, the row at \<open>padding_idx\<close> is set to zeros at construction, the lookup returns the
  row of each token, and the gradient of the table accumulates, per row, the upstream
  gradients of the positions holding that token, except that the row at \<open>padding_idx\<close>
  receives no gradient.
\<close>

record Embedding =
  num_embeddings :: nat
  embedding_dim :: nat
  padding_idx :: "nat option"
  weight :: "real list list"

text \<open>\<open>w0\<close> is the random initial draw of the table.\<close>

definition Embedding_init :: "nat \<Rightarrow> nat \<Rightarrow> nat option \<Rightarrow> real list list \<Rightarrow> Embedding" where
  "Embedding_init n d pad w0 =
     \<lparr>num_embeddings = n, embedding_dim = d, padding_idx = pad,
      weight = (case pad of None \<Rightarrow> w0 | Some p \<Rightarrow> w0[p := replicate d 0])\<rparr>"

text \<open>The lookup on one token sequence; an id outside the table is an IndexError.\<close>

definition embedding_forward :: "Embedding \<Rightarrow> nat list \<Rightarrow> real list list option" where
  "embedding_forward e x =
     (if list_all (\<lambda>tok. tok < num_embeddings e) x then Some (map (\<lambda>tok. weight e ! tok) x)
      else None)"

definition vadd :: "real list \<Rightarrow> real list \<Rightarrow> real list" where
  "vadd a b = map2 (+) a b"

definition vsum :: "nat \<Rightarrow> real list list \<Rightarrow> real list" where
  "vsum d vs = foldr vadd vs (replicate d 0)"

text \<open>The gradient of the table for one token sequence \<open>x\<close> and the upstream gradient
  \<open>g\<close> of its positions.\<close>

definition embedding_grad :: "Embedding \<Rightarrow> nat list \<Rightarrow> real list list \<Rightarrow> real list list" where
  "embedding_grad e x g =
     map (\<lambda>row. if padding_idx e = Some row then replicate (embedding_dim e) 0
                 else vsum (embedding_dim e) (map snd (filter (\<lambda>(tok, gp). tok = row) (zip x g))))
         [0..<num_embeddings e]"

text \<open>A gradient step with learning rate \<open>lr\<close> on the table.\<close>

definition gradient_step :: "real \<Rightarrow> Embedding \<Rightarrow> real list list \<Rightarrow> Embedding" where
  "gradient_step lr e grad =
     e\<lparr>weight := map2 (map2 (\<lambda>w gr. w - lr * gr)) (weight e) grad\<rparr>"

text \<open>The embedding of \<^verbatim>\<open>ParallelInstructionModel\<close> with its default arguments.\<close>

definition model_embedding :: "real list list \<Rightarrow> Embedding" where
  "model_embedding w0 = Embedding_init 261 128 (Some 256) w0"

section \<open>Shapes through the model (parallel/model.py, ParallelInstructionModel.forward)\<close>

text \<open>
  The forward pass at the level of tensor shapes. A shape is the list of dimension
  sizes; an operation whose operands do not fit raises in the tensor library, the value
  \<open>Inl ShapeError\<close>. The layers are the tensor library's; each is modelled by its shape
  rule on the tensors that \<^verbatim>\<open>forward\<close> passes to it (3-D activations, 4-D attention
  heads).
\<close>

type_synonym shape = "nat list"

record model_config =
  vocab_size :: nat
  embed_dim :: nat
  hidden_dim :: nat
  num_slots :: nat
  num_heads :: nat
  max_seq_len :: nat
  training :: bool

text \<open>The constructor's defaults; \<open>max_seq_len\<close> is passed by the callers, and
  \<open>training\<close> is the mode the module is in.\<close>

definition default_config :: "nat \<Rightarrow> bool \<Rightarrow> model_config" where
  "default_config msl tr =
     \<lparr>vocab_size = 261, embed_dim = 128, hidden_dim = 512, num_slots = NUM_SLOTS,
      num_heads = 8, max_seq_len = msl, training = tr\<rparr>"

text \<open>Broadcasting of two shapes aligned at the last dimension.\<close>

fun broadcast_rev :: "shape \<Rightarrow> shape \<Rightarrow> torch_error + shape" where
  "broadcast_rev [] ys = Inr ys"
| "broadcast_rev xs [] = Inr xs"
| "broadcast_rev (x # xs) (y # ys) =
     bind_err (broadcast_dim x y) (\<lambda>d.
     bind_err (broadcast_rev xs ys) (\<lambda>ds. Inr (d # ds)))"

definition broadcast :: "shape \<Rightarrow> shape \<Rightarrow> torch_error + shape" where
  "broadcast xs ys = bind_err (broadcast_rev (rev xs) (rev ys)) (\<lambda>r. Inr (rev r))"

text \<open>\<^verbatim>\<open>nn.Embedding\<close> on the token ids \<open>x\<close> of shape (batch, seq\_len): one
  vector per token; a token id outside \<open>[0, vocab_size)\<close> is an \<^verbatim>\<open>IndexError\<close>.\<close>

definition embedding_shape :: "nat \<Rightarrow> nat \<Rightarrow> int tensor2 \<Rightarrow> torch_error + shape" where
  "embedding_shape n d x =
     (if list_all (\<lambda>tok. 0 \<le> tok \<and> tok < int n) (data x) then Inr [dim0 x, dim1 x, d]
      else Inl IndexError)"

text \<open>\<^verbatim>\<open>PositionalEncoding.forward\<close>: \<^verbatim>\<open>x + self.pe[:, :x.size(1)]\<close> with \<open>pe\<close> of
  shape (1, max\_len, d\_model); the slice keeps at most \<open>max_len\<close> positions.\<close>

definition pos_encoding_shape :: "nat \<Rightarrow> nat \<Rightarrow> shape \<Rightarrow> torch_error + shape" where
  "pos_encoding_shape d_model max_len x =
     (case x of
        b # l # rest \<Rightarrow> broadcast x [1, min l max_len, d_model]
      | _ \<Rightarrow> Inl ShapeError)"

text \<open>\<^verbatim>\<open>permute(0, 2, 1)\<close> and the two transpositions used by the attention.\<close>

definition permute_021 :: "shape \<Rightarrow> torch_error + shape" where
  "permute_021 x = (case x of [a, b, c] \<Rightarrow> Inr [a, c, b] | _ \<Rightarrow> Inl ShapeError)"

definition transpose_1_2 :: "shape \<Rightarrow> torch_error + shape" where
  "transpose_1_2 x = (case x of a # b # c # rest \<Rightarrow> Inr (a # c # b # rest) | _ \<Rightarrow> Inl ShapeError)"

definition transpose_last :: "shape \<Rightarrow> torch_error + shape" where
  "transpose_last x = (case x of [a, b, c, d] \<Rightarrow> Inr [a, b, d, c] | _ \<Rightarrow> Inl ShapeError)"

text \<open>\<^verbatim>\<open>nn.Conv1d(c_in, c_out, kernel_size=3, padding=1)\<close> on (batch, channels, length):
  the padded length must hold the kernel.\<close>

definition conv1d_shape :: "nat \<Rightarrow> nat \<Rightarrow> shape \<Rightarrow> torch_error + shape" where
  "conv1d_shape c_in c_out x =
     (case x of
        [b, c, l] \<Rightarrow> (if c = c_in \<and> 3 \<le> l + 2 then Inr [b, c_out, l + 2 - 3 + 1]
                       else Inl ShapeError)
      | _ \<Rightarrow> Inl ShapeError)"

text \<open>\<^verbatim>\<open>nn.BatchNorm1d(c)\<close>: in training mode it needs more than one value per
  channel.\<close>

definition batch_norm1d_shape :: "nat \<Rightarrow> bool \<Rightarrow> shape \<Rightarrow> torch_error + shape" where
  "batch_norm1d_shape c tr x =
     (case x of
        [b, c', l] \<Rightarrow>
          (if c' = c \<and> (if tr then b * l \<noteq> 1 else True) then Inr x else Inl ShapeError)
      | _ \<Rightarrow> Inl ShapeError)"

text \<open>\<^verbatim>\<open>nn.Linear(d_in, d_out)\<close> and \<^verbatim>\<open>nn.LayerNorm(d)\<close> act on the last dimension.\<close>

definition linear_shape :: "nat \<Rightarrow> nat \<Rightarrow> shape \<Rightarrow> torch_error + shape" where
  "linear_shape d_in d_out x =
     (if x \<noteq> [] \<and> last x = d_in then Inr (butlast x @ [d_out]) else Inl ShapeError)"

definition layer_norm_shape :: "nat \<Rightarrow> shape \<Rightarrow> torch_error + shape" where
  "layer_norm_shape d x = (if x \<noteq> [] \<and> last x = d then Inr x else Inl ShapeError)"

text \<open>\<^verbatim>\<open>view\<close> with one inferred dimension (\<open>-1\<close>) between the given \<open>pre\<close> and
  \<open>post\<close> dimensions: the element count must be a multiple of the product of the given
  ones, which must not be zero.\<close>

definition view_infer :: "shape \<Rightarrow> shape \<Rightarrow> shape \<Rightarrow> torch_error + shape" where
  "view_infer pre post x =
     (let known = prod_list pre * prod_list post; n = prod_list x
      in if known \<noteq> 0 \<and> n mod known = 0 then Inr (pre @ [n div known] @ post)
         else Inl ShapeError)"

text \<open>\<^verbatim>\<open>torch.matmul\<close> of two 4-D tensors with equal leading dimensions.\<close>

definition matmul_shape :: "shape \<Rightarrow> shape \<Rightarrow> torch_error + shape" where
  "matmul_shape x y =
     (case (x, y) of
        ([a, b, n, m], [a', b', m', p]) \<Rightarrow>
          (if a = a' \<and> b = b' \<and> m = m' then Inr [a, b, n, p] else Inl ShapeError)
      | _ \<Rightarrow> Inl ShapeError)"

text \<open>\<^verbatim>\<open>MultiHeadCrossAttention.forward\<close>; \<open>softmax\<close> and dropout keep the shape.\<close>

definition attention_shape :: "nat \<Rightarrow> nat \<Rightarrow> shape \<Rightarrow> shape \<Rightarrow> shape \<Rightarrow> torch_error + shape" where
  "attention_shape d_model n_heads query key val =
     (case query of
        [] \<Rightarrow> Inl ShapeError
      | batch_size # _ \<Rightarrow>
          let head_dim = d_model div n_heads in
          bind_err (linear_shape d_model d_model query) (\<lambda>q0.
          bind_err (view_infer [batch_size] [n_heads, head_dim] q0) (\<lambda>q1.
          bind_err (transpose_1_2 q1) (\<lambda>q.
          bind_err (linear_shape d_model d_model key) (\<lambda>k0.
          bind_err (view_infer [batch_size] [n_heads, head_dim] k0) (\<lambda>k1.
          bind_err (transpose_1_2 k1) (\<lambda>k.
          bind_err (linear_shape d_model d_model val) (\<lambda>v0.
          bind_err (view_infer [batch_size] [n_heads, head_dim] v0) (\<lambda>v1.
          bind_err (transpose_1_2 v1) (\<lambda>v.
          bind_err (transpose_last k) (\<lambda>kt.
          bind_err (matmul_shape q kt) (\<lambda>attn.
          bind_err (matmul_shape attn v) (\<lambda>out0.
          bind_err (transpose_1_2 out0) (\<lambda>out1.
          bind_err (view_infer [batch_size] [d_model] out1) (\<lambda>out.
          linear_shape d_model d_model out)))))))))))))))"

text \<open>The convolutional encoder \<^verbatim>\<open>self.encoder\<close>; \<open>GELU\<close> keeps the shape.\<close>

definition encoder_shape :: "model_config \<Rightarrow> shape \<Rightarrow> torch_error + shape" where
  "encoder_shape cfg x =
     bind_err (conv1d_shape (embed_dim cfg) 256 x) (\<lambda>x1.
     bind_err (batch_norm1d_shape 256 (training cfg) x1) (\<lambda>x2.
     bind_err (conv1d_shape 256 512 x2) (\<lambda>x3.
     bind_err (batch_norm1d_shape 512 (training cfg) x3) (\<lambda>x4.
     conv1d_shape 512 (hidden_dim cfg) x4))))"

text \<open>One cross-attention layer with its residual sum and normalisation.\<close>

definition attn_layer_shape :: "model_config \<Rightarrow> shape \<Rightarrow> shape \<Rightarrow> torch_error + shape" where
  "attn_layer_shape cfg encoded slots =
     bind_err (attention_shape (hidden_dim cfg) (num_heads cfg) slots encoded encoded) (\<lambda>a.
     bind_err (broadcast slots a) (\<lambda>r.
     layer_norm_shape (hidden_dim cfg) r))"

definition ffn_shape :: "model_config \<Rightarrow> shape \<Rightarrow> torch_error + shape" where
  "ffn_shape cfg x =
     bind_err (linear_shape (hidden_dim cfg) (hidden_dim cfg * 4) x) (\<lambda>h.
     linear_shape (hidden_dim cfg * 4) (hidden_dim cfg) h)"

text \<open>\<^verbatim>\<open>forward\<close> on the token ids \<open>x\<close> of shape (batch\_size, seq\_len), as its
  signature states: the dict of the eight heads' outputs, in the order it is built.\<close>

definition forward_shape ::
  "model_config \<Rightarrow> int tensor2 \<Rightarrow> torch_error + (string \<times> shape) list" where
  "forward_shape cfg x =
     (let batch_size = dim0 x in
      bind_err (embedding_shape (vocab_size cfg) (embed_dim cfg) x) (\<lambda>e0.
      bind_err (pos_encoding_shape (embed_dim cfg) (max_seq_len cfg) e0) (\<lambda>embedded.
      bind_err (permute_021 embedded) (\<lambda>p.
      bind_err (encoder_shape cfg p) (\<lambda>enc0.
      bind_err (permute_021 enc0) (\<lambda>encoded.
      let slots0 = [batch_size, num_slots cfg, hidden_dim cfg] in
      bind_err (attn_layer_shape cfg encoded slots0) (\<lambda>slots1.
      bind_err (attn_layer_shape cfg encoded slots1) (\<lambda>slots2.
      bind_err (ffn_shape cfg slots2) (\<lambda>f.
      bind_err (broadcast slots2 f) (\<lambda>r.
      bind_err (layer_norm_shape (hidden_dim cfg) r) (\<lambda>slots.
      bind_err (linear_shape (hidden_dim cfg) 2 slots) (\<lambda>o_valid.
      bind_err (linear_shape (hidden_dim cfg) NUM_OPCODES slots) (\<lambda>o_opcode.
      bind_err (linear_shape (hidden_dim cfg) NUM_MODES slots) (\<lambda>o_mode.
      bind_err (linear_shape (hidden_dim cfg) NUM_REGISTERS slots) (\<lambda>o_rd.
      bind_err (linear_shape (hidden_dim cfg) NUM_REGISTERS slots) (\<lambda>o_rs1.
      bind_err (linear_shape (hidden_dim cfg) NUM_REGISTERS slots) (\<lambda>o_rs2.
      bind_err (linear_shape (hidden_dim cfg) 2 slots) (\<lambda>o_has_imm.
      bind_err (linear_shape (hidden_dim cfg) IMM_BINS slots) (\<lambda>o_imm_bin.
      Inr [(''valid'', o_valid), (''opcode'', o_opcode), (''mode'', o_mode),
           (''rd'', o_rd), (''rs1'', o_rs1), (''rs2'', o_rs2),
           (''has_imm'', o_has_imm), (''imm_bin'', o_imm_bin)])))))))))))))))))))"

text \<open>A batch of token ids of shape (b, l), every id a byte or the padding id 256 (or
  any other id of the table).\<close>

definition tokens_ok :: "model_config \<Rightarrow> nat \<Rightarrow> nat \<Rightarrow> int tensor2 \<Rightarrow> bool" where
  "tokens_ok cfg b l x =
     (labels_shape b l x \<and> list_all (\<lambda>tok. 0 \<le> tok \<and> tok < int (vocab_size cfg)) (data x))"

section \<open>Auxiliary notions for the properties of the dataset\<close>

text \<open>The record that the loop writes into slot \<open>j\<close>, for a list of targets long
  enough.\<close>

definition slot_of :: "instr \<Rightarrow> int list" where
  "slot_of ins =
     [get_or ins ''valid'' 0, min (get_or ins ''opcode'' 0) 32, min (get_or ins ''mode'' 0) 7,
      min (get_or ins ''rd'' 0) 31, min (get_or ins ''rs1'' 0) 31, min (get_or ins ''rs2'' 0) 31,
      get_or ins ''has_imm'' 0, encode_imm_bin (get_or ins ''imm_bin'' 0)]"

definition slot_at :: "targets \<Rightarrow> nat \<Rightarrow> int list" where
  "slot_at t j = [valid t ! j, opcode t ! j, mode t ! j, rd t ! j, rs1 t ! j, rs2 t ! j,
                  has_imm t ! j, imm_bin t ! j]"

definition long_enough :: "nat \<Rightarrow> targets \<Rightarrow> bool" where
  "long_enough n t \<longleftrightarrow>
     n \<le> length (valid t) \<and> n \<le> length (opcode t) \<and> n \<le> length (mode t) \<and>
     n \<le> length (rd t) \<and> n \<le> length (rs1 t) \<and> n \<le> length (rs2 t) \<and>
     n \<le> length (has_imm t) \<and> n \<le> length (imm_bin t)"

text \<open>Two concrete samples: the one-instruction program of the end-to-end scenario, and
  a record with labels below the class range.\<close>

definition sample_add :: sample where
  "sample_add =
     \<lparr>text_of = ''add 5 and 7'',
      instructions = [[''valid'' \<mapsto> 1, ''opcode'' \<mapsto> 4, ''mode'' \<mapsto> 0, ''rd'' \<mapsto> 0,
                       ''rs1'' \<mapsto> 0, ''rs2'' \<mapsto> 1, ''has_imm'' \<mapsto> 0, ''imm_bin'' \<mapsto> 0]],
      category = ''unknown''\<rparr>"

definition sample_negative :: sample where
  "sample_negative =
     \<lparr>text_of = ''x'',
      instructions = [[''valid'' \<mapsto> 1, ''opcode'' \<mapsto> - 1, ''mode'' \<mapsto> - 1, ''rd'' \<mapsto> - 1,
                       ''rs1'' \<mapsto> - 1, ''rs2'' \<mapsto> - 1]],
      category = ''unknown''\<rparr>"

text \<open>A record with labels above the class range in all five fields.\<close>

definition sample_large :: sample where
  "sample_large =
     \<lparr>text_of = ''x'',
      instructions = [[''valid'' \<mapsto> 1, ''opcode'' \<mapsto> 40, ''mode'' \<mapsto> 9, ''rd'' \<mapsto> 32,
                       ''rs1'' \<mapsto> 33, ''rs2'' \<mapsto> 255]],
      category = ''unknown''\<rparr>"

text \<open>A line of the training file as the generators write it for a program with no
  instruction: a prompt and the 64 padding records of \<^verbatim>\<open>pad_instructions\<close>.\<close>

definition item_empty_program :: item where
  "item_empty_program =
     \<lparr>item_context = Some ''do nothing'', item_prompt = None,
      item_instructions = Some (pad_instructions [] 64), item_category = None\<rparr>"

definition sample_empty_program :: sample where
  "sample_empty_program =
     \<lparr>text_of = ''do nothing'', instructions = replicate 64 padding_record,
      category = ''unknown''\<rparr>"

text \<open>A line whose instruction list is empty.\<close>

definition item_no_instructions :: item where
  "item_no_instructions =
     \<lparr>item_context = Some ''do nothing'', item_prompt = None,
      item_instructions = Some [], item_category = None\<rparr>"

section \<open>Auxiliary notions for the properties of the training loop\<close>

text \<open>
  A run of four epochs (the model states are numbered): the second epoch ties the
  accuracy of the first with a lower validation loss, the fourth ties the third.
\<close>

definition demo_epochs :: "nat epoch_result list" where
  "demo_epochs =
     [\<lparr>model_state = 1, val_total = 3, val_opcode_acc = 1 / 2\<rparr>,
      \<lparr>model_state = 2, val_total = 1, val_opcode_acc = 1 / 2\<rparr>,
      \<lparr>model_state = 3, val_total = 2, val_opcode_acc = 3 / 4\<rparr>,
      \<lparr>model_state = 4, val_total = 1 / 2, val_opcode_acc = 3 / 4\<rparr>]"

section \<open>Auxiliary notions for the properties of the loss and of the shapes\<close>

text \<open>The class count of each head, and batches of one sample with uniform (all-zero)
  scores: one whose 64 slots are all padding, one whose 64 slots are all valid, and one
  whose first two slots only are valid, with opcode labels 4 and 1 there.\<close>

definition head_classes :: "string \<Rightarrow> nat" where
  "head_classes name =
     (if name = ''valid'' \<or> name = ''has_imm'' then 2
      else if name = ''opcode'' then NUM_OPCODES
      else if name = ''mode'' then NUM_MODES
      else if name = ''imm_bin'' then IMM_BINS
      else NUM_REGISTERS)"

definition uniform_logits :: "string \<Rightarrow> scores" where
  "uniform_logits name =
     \<lparr>n_batch = 1, n_slots = 64, n_classes = head_classes name,
      score_data = replicate (1 * 64 * head_classes name) 0\<rparr>"

definition all_padding_targets :: "string \<Rightarrow> labels" where
  "all_padding_targets name = \<lparr>dim0 = 1, dim1 = 64, data = replicate 64 0\<rparr>"

definition all_valid_targets :: "string \<Rightarrow> labels" where
  "all_valid_targets name =
     \<lparr>dim0 = 1, dim1 = 64, data = replicate 64 (if name = ''valid'' then 1 else 0)\<rparr>"

definition two_valid_targets :: "string \<Rightarrow> labels" where
  "two_valid_targets name =
     \<lparr>dim0 = 1, dim1 = 64,
      data = (if name = ''valid'' then [1, 1] @ replicate 62 0
              else if name = ''opcode'' then [4, 1] @ replicate 62 0
              else replicate 64 0)\<rparr>"

text \<open>The labels of the sample built from a record with opcode \<open>-1\<close>: slot 0 is valid
  and carries the label \<open>-1\<close> for the opcode head.\<close>

definition negative_label_targets :: "string \<Rightarrow> labels" where
  "negative_label_targets name =
     \<lparr>dim0 = 1, dim1 = 64,
      data = (if name = ''valid'' then [1] @ replicate 63 0
              else if name = ''opcode'' then [- 1] @ replicate 63 0
              else replicate 64 0)\<rparr>"

text \<open>Token batches: four prompts of 128 bytes, and one prompt of 513 bytes.\<close>

definition demo_batch :: "int tensor2" where
  "demo_batch = \<lparr>dim0 = 4, dim1 = 128, data = replicate (4 * 128) 65\<rparr>"

definition long_batch :: "int tensor2" where
  "long_batch = \<lparr>dim0 = 1, dim1 = 513, data = replicate 513 65\<rparr>"

section \<open>Auxiliary notions for the properties of the embedding\<close>

text \<open>A table whose initial draw is all ones, a sequence of the byte 65 followed by one
  padding token, and an upstream gradient of ones at both positions.\<close>

definition demo_embedding :: Embedding where
  "demo_embedding = model_embedding (replicate 261 (replicate 128 1))"

definition demo_tokens :: "nat list" where
  "demo_tokens = [65, 256]"

definition demo_upstream :: "real list list" where
  "demo_upstream = [replicate 128 1, replicate 128 1]"

section \<open>Basic facts\<close>

lemma bind_err_Inr [simp]: "bind_err (Inr x) f = f x"
  by (simp add: bind_err_def)

lemma bind_err_Inl [simp]: "bind_err (Inl e) f = Inl e"
  by (simp add: bind_err_def)

section \<open>Properties of the dataset\<close>

text \<open>
  C1. The training-time encoding of an immediate (\<open>v mod 256\<close>) followed by the
  inference-side decoding (\<open>bin - 128\<close>) never gives the immediate back: the two maps are
  not inverses at any integer, hence not for most of them.
\<close>

theorem imm_encode_decode_not_inverse:
  "decode_imm (encode_imm_bin v) \<noteq> v"
proof
  assume "decode_imm (encode_imm_bin v) = v"
  then have a: "v mod 256 - 128 = v"
    by (simp add: decode_imm_def encode_imm_bin_def)
  have "v = 256 * (v div 256) + v mod 256" by simp
  with a have e: "256 * (v div 256) = - 128" by linarith
  show False
  proof (cases "v div 256 \<le> - 1")
    case True
    with e show False by linarith
  next
    case False
    with e show False by linarith
  qed
qed


lemma fill_slot_length [simp]:
  "length (valid (fill_slot i ins t)) = length (valid t)"
  "length (opcode (fill_slot i ins t)) = length (opcode t)"
  "length (mode (fill_slot i ins t)) = length (mode t)"
  "length (rd (fill_slot i ins t)) = length (rd t)"
  "length (rs1 (fill_slot i ins t)) = length (rs1 t)"
  "length (rs2 (fill_slot i ins t)) = length (rs2 t)"
  "length (has_imm (fill_slot i ins t)) = length (has_imm t)"
  "length (imm_bin (fill_slot i ins t)) = length (imm_bin t)"
  by (simp_all add: fill_slot_def)

lemma fill_loop_length [simp]:
  "length (valid (fill_loop n i xs t)) = length (valid t)"
  "length (opcode (fill_loop n i xs t)) = length (opcode t)"
  "length (mode (fill_loop n i xs t)) = length (mode t)"
  "length (rd (fill_loop n i xs t)) = length (rd t)"
  "length (rs1 (fill_loop n i xs t)) = length (rs1 t)"
  "length (rs2 (fill_loop n i xs t)) = length (rs2 t)"
  "length (has_imm (fill_loop n i xs t)) = length (has_imm t)"
  "length (imm_bin (fill_loop n i xs t)) = length (imm_bin t)"
  by (induction xs arbitrary: i t; simp)+

text \<open>Slots outside the window written by the loop keep their value.\<close>

lemma fill_loop_untouched:
  assumes "j < i \<or> i + length xs \<le> j"
  shows "valid (fill_loop n i xs t) ! j = valid t ! j"
    and "opcode (fill_loop n i xs t) ! j = opcode t ! j"
    and "mode (fill_loop n i xs t) ! j = mode t ! j"
    and "rd (fill_loop n i xs t) ! j = rd t ! j"
    and "rs1 (fill_loop n i xs t) ! j = rs1 t ! j"
    and "rs2 (fill_loop n i xs t) ! j = rs2 t ! j"
    and "has_imm (fill_loop n i xs t) ! j = has_imm t ! j"
    and "imm_bin (fill_loop n i xs t) ! j = imm_bin t ! j"
  using assms
  by (induction xs arbitrary: i t; fastforce simp: fill_slot_def)+

lemma long_enough_fill_slot [simp]: "long_enough n (fill_slot i x t) = long_enough n t"
  by (simp add: long_enough_def)

lemma slot_at_untouched:
  "j < i \<or> i + length xs \<le> j \<Longrightarrow> slot_at (fill_loop n i xs t) j = slot_at t j"
  by (simp add: slot_at_def fill_loop_untouched)

lemma slot_at_fill_slot:
  "long_enough n t \<Longrightarrow> i < n \<Longrightarrow> slot_at (fill_slot i x t) i = slot_of x"
  by (simp add: slot_at_def slot_of_def fill_slot_def long_enough_def)

lemma fill_loop_written:
  "k < length xs \<Longrightarrow> i + k < n \<Longrightarrow> long_enough n t \<Longrightarrow>
   slot_at (fill_loop n i xs t) (i + k) = slot_of (xs ! k)"
proof (induction xs arbitrary: i k t)
  case Nil
  then show ?case by simp
next
  case (Cons x xs)
  show ?case
  proof (cases k)
    case 0
    with Cons.prems show ?thesis
      by (simp add: slot_at_untouched slot_at_fill_slot)
  next
    case (Suc k')
    with Cons.prems Cons.IH[of k' "Suc i" "fill_slot i x t"] show ?thesis by simp
  qed
qed


lemma zero_targets_long_enough [simp]: "long_enough n (zero_targets n)"
  by (simp add: long_enough_def zero_targets_def)

lemma slot_at_zero_targets: "j < n \<Longrightarrow> slot_at (zero_targets n) j = replicate 8 0"
  by (simp add: slot_at_def zero_targets_def numeral_eq_Suc)

text \<open>The targets of a sample, slot by slot.\<close>

lemma getitem_targets_slot:
  assumes "j < n"
  shows "slot_at (getitem_targets n s) j =
           (if j < length (instructions s) then slot_of (instructions s ! j) else replicate 8 0)"
proof (cases "j < length (instructions s)")
  case True
  with assms fill_loop_written[of j "take n (instructions s)" 0 n "zero_targets n"]
  show ?thesis by (simp add: getitem_targets_def)
next
  case False
  with assms slot_at_untouched[of j 0 "take n (instructions s)" n "zero_targets n"]
  show ?thesis by (simp add: getitem_targets_def slot_at_zero_targets)
qed

lemma getitem_targets_length:
  "length (valid (getitem_targets n s)) = n" "length (opcode (getitem_targets n s)) = n"
  "length (mode (getitem_targets n s)) = n" "length (rd (getitem_targets n s)) = n"
  "length (rs1 (getitem_targets n s)) = n" "length (rs2 (getitem_targets n s)) = n"
  "length (has_imm (getitem_targets n s)) = n" "length (imm_bin (getitem_targets n s)) = n"
  by (simp_all add: getitem_targets_def zero_targets_def)

lemma getitem_targets_take:
  "getitem_targets n (s\<lparr>instructions := take n (instructions s)\<rparr>) = getitem_targets n s"
  by (simp add: getitem_targets_def)

text \<open>
  C6. Each of the eight target lists of a sample has length exactly 64; every slot at an
  index at or beyond the number of provided records holds 0 in all eight lists; the
  targets depend on the first 64 records only; and slot \<open>i\<close> below 64 and below the
  number of records holds the fields of record \<open>i\<close> as the loader converts them.
\<close>

theorem getitem_targets_padded:
  "(let T = getitem_targets NUM_SLOTS s in
      length (valid T) = 64 \<and> length (opcode T) = 64 \<and> length (mode T) = 64 \<and>
      length (rd T) = 64 \<and> length (rs1 T) = 64 \<and> length (rs2 T) = 64 \<and>
      length (has_imm T) = 64 \<and> length (imm_bin T) = 64 \<and>
      (\<forall>i. length (instructions s) \<le> i \<and> i < 64 \<longrightarrow>
         valid T ! i = 0 \<and> opcode T ! i = 0 \<and> mode T ! i = 0 \<and> rd T ! i = 0 \<and>
         rs1 T ! i = 0 \<and> rs2 T ! i = 0 \<and> has_imm T ! i = 0 \<and> imm_bin T ! i = 0) \<and>
      T = getitem_targets NUM_SLOTS (s\<lparr>instructions := take 64 (instructions s)\<rparr>) \<and>
      (\<forall>i. i < length (instructions s) \<and> i < 64 \<longrightarrow>
         valid T ! i = get_or (instructions s ! i) ''valid'' 0 \<and>
         opcode T ! i = min (get_or (instructions s ! i) ''opcode'' 0) 32 \<and>
         mode T ! i = min (get_or (instructions s ! i) ''mode'' 0) 7 \<and>
         rd T ! i = min (get_or (instructions s ! i) ''rd'' 0) 31 \<and>
         rs1 T ! i = min (get_or (instructions s ! i) ''rs1'' 0) 31 \<and>
         rs2 T ! i = min (get_or (instructions s ! i) ''rs2'' 0) 31 \<and>
         has_imm T ! i = get_or (instructions s ! i) ''has_imm'' 0 \<and>
         imm_bin T ! i = get_or (instructions s ! i) ''imm_bin'' 0 mod 256))"
proof -
  have pad: "valid (getitem_targets 64 s) ! i = 0 \<and> opcode (getitem_targets 64 s) ! i = 0 \<and>
      mode (getitem_targets 64 s) ! i = 0 \<and> rd (getitem_targets 64 s) ! i = 0 \<and>
      rs1 (getitem_targets 64 s) ! i = 0 \<and> rs2 (getitem_targets 64 s) ! i = 0 \<and>
      has_imm (getitem_targets 64 s) ! i = 0 \<and> imm_bin (getitem_targets 64 s) ! i = 0"
    if "length (instructions s) \<le> i" "i < 64" for i
  proof -
    from that getitem_targets_slot[of i 64 s]
    have "slot_at (getitem_targets 64 s) i = replicate 8 0" by simp
    then show ?thesis by (simp add: slot_at_def numeral_eq_Suc)
  qed
  have given: "valid (getitem_targets 64 s) ! i = get_or (instructions s ! i) ''valid'' 0 \<and>
      opcode (getitem_targets 64 s) ! i = min (get_or (instructions s ! i) ''opcode'' 0) 32 \<and>
      mode (getitem_targets 64 s) ! i = min (get_or (instructions s ! i) ''mode'' 0) 7 \<and>
      rd (getitem_targets 64 s) ! i = min (get_or (instructions s ! i) ''rd'' 0) 31 \<and>
      rs1 (getitem_targets 64 s) ! i = min (get_or (instructions s ! i) ''rs1'' 0) 31 \<and>
      rs2 (getitem_targets 64 s) ! i = min (get_or (instructions s ! i) ''rs2'' 0) 31 \<and>
      has_imm (getitem_targets 64 s) ! i = get_or (instructions s ! i) ''has_imm'' 0 \<and>
      imm_bin (getitem_targets 64 s) ! i = get_or (instructions s ! i) ''imm_bin'' 0 mod 256"
    if "i < length (instructions s)" "i < 64" for i
  proof -
    from that getitem_targets_slot[of i 64 s]
    have "slot_at (getitem_targets 64 s) i = slot_of (instructions s ! i)" by simp
    then show ?thesis by (simp add: slot_at_def slot_of_def encode_imm_bin_def)
  qed
  show ?thesis
    unfolding Let_def NUM_SLOTS_def
    using pad given by (simp add: getitem_targets_length getitem_targets_take)
qed

text \<open>The one-instruction sample: slot 0 holds the record, slot 63 is padding.\<close>

theorem getitem_targets_padded_witness:
  "length (instructions sample_add) \<le> 63 \<and> (63::nat) < 64 \<and>
   length (valid (getitem_targets NUM_SLOTS sample_add)) = 64 \<and>
   valid (getitem_targets NUM_SLOTS sample_add) ! 63 = 0 \<and>
   imm_bin (getitem_targets NUM_SLOTS sample_add) ! 63 = 0 \<and>
   0 < length (instructions sample_add) \<and> (0::nat) < 64 \<and>
   valid (getitem_targets NUM_SLOTS sample_add) ! 0 = 1 \<and>
   opcode (getitem_targets NUM_SLOTS sample_add) ! 0 = 4 \<and>
   rs2 (getitem_targets NUM_SLOTS sample_add) ! 0 = 1"
proof -
  have h: "length (instructions sample_add) \<le> 63 \<and> (63::nat) < 64"
    "0 < length (instructions sample_add) \<and> (0::nat) < 64"
    by (simp_all add: sample_add_def)
  have r: "get_or (instructions sample_add ! 0) ''valid'' 0 = 1"
    "min (get_or (instructions sample_add ! 0) ''opcode'' 0) 32 = 4"
    "min (get_or (instructions sample_add ! 0) ''rs2'' 0) 31 = 1"
    by (simp_all add: sample_add_def get_or_def)
  from getitem_targets_padded[of sample_add] h
  have "valid (getitem_targets NUM_SLOTS sample_add) ! 63 = 0"
    "imm_bin (getitem_targets NUM_SLOTS sample_add) ! 63 = 0"
    "length (valid (getitem_targets NUM_SLOTS sample_add)) = 64"
    "valid (getitem_targets NUM_SLOTS sample_add) ! 0 =
       get_or (instructions sample_add ! 0) ''valid'' 0"
    "opcode (getitem_targets NUM_SLOTS sample_add) ! 0 =
       min (get_or (instructions sample_add ! 0) ''opcode'' 0) 32"
    "rs2 (getitem_targets NUM_SLOTS sample_add) ! 0 =
       min (get_or (instructions sample_add ! 0) ''rs2'' 0) 31"
    unfolding Let_def by blast+
  with h r show ?thesis by simp
qed

text \<open>
  C2. The loader bounds the five categorical labels from above only
  (\<^verbatim>\<open>min(value, max_class)\<close>): a label below the class range is written to the targets
  unchanged. Here a record with the label \<open>-1\<close> in all five fields.
\<close>

theorem negative_labels_not_clamped:
  "opcode (getitem_targets NUM_SLOTS sample_negative) ! 0 = - 1 \<and>
   mode (getitem_targets NUM_SLOTS sample_negative) ! 0 = - 1 \<and>
   rd (getitem_targets NUM_SLOTS sample_negative) ! 0 = - 1 \<and>
   rs1 (getitem_targets NUM_SLOTS sample_negative) ! 0 = - 1 \<and>
   rs2 (getitem_targets NUM_SLOTS sample_negative) ! 0 = - 1"
proof -
  have "slot_at (getitem_targets 64 sample_negative) 0 = slot_of (instructions sample_negative ! 0)"
    using getitem_targets_slot[of 0 64 sample_negative] by (simp add: sample_negative_def)
  then show ?thesis
    by (simp add: slot_at_def slot_of_def sample_negative_def get_or_def NUM_SLOTS_def)
qed

text \<open>The upper bound does hold in every slot: no label exceeds the largest class of
  its head.\<close>

lemma labels_bounded_above:
  assumes "j < 64"
  shows "opcode (getitem_targets NUM_SLOTS s) ! j \<le> 32 \<and>
         mode (getitem_targets NUM_SLOTS s) ! j \<le> 7 \<and>
         rd (getitem_targets NUM_SLOTS s) ! j \<le> 31 \<and>
         rs1 (getitem_targets NUM_SLOTS s) ! j \<le> 31 \<and>
         rs2 (getitem_targets NUM_SLOTS s) ! j \<le> 31"
proof -
  from assms getitem_targets_slot[of j 64 s]
  have "slot_at (getitem_targets 64 s) j =
          (if j < length (instructions s) then slot_of (instructions s ! j) else replicate 8 0)"
    by simp
  then show ?thesis
    by (cases "j < length (instructions s)")
       (simp_all add: slot_at_def slot_of_def NUM_SLOTS_def numeral_eq_Suc)
qed


lemma labels_bounded_above_witness:
  "(0::nat) < 64 \<and>
   opcode (getitem_targets NUM_SLOTS sample_large) ! 0 = 32 \<and>
   mode (getitem_targets NUM_SLOTS sample_large) ! 0 = 7 \<and>
   rd (getitem_targets NUM_SLOTS sample_large) ! 0 = 31 \<and>
   rs1 (getitem_targets NUM_SLOTS sample_large) ! 0 = 31 \<and>
   rs2 (getitem_targets NUM_SLOTS sample_large) ! 0 = 31"
proof -
  have "slot_at (getitem_targets 64 sample_large) 0 = slot_of (instructions sample_large ! 0)"
    using getitem_targets_slot[of 0 64 sample_large] by (simp add: sample_large_def)
  then have "opcode (getitem_targets NUM_SLOTS sample_large) ! 0 \<ge> 32 \<and>
   mode (getitem_targets NUM_SLOTS sample_large) ! 0 \<ge> 7 \<and>
   rd (getitem_targets NUM_SLOTS sample_large) ! 0 \<ge> 31 \<and>
   rs1 (getitem_targets NUM_SLOTS sample_large) ! 0 \<ge> 31 \<and>
   rs2 (getitem_targets NUM_SLOTS sample_large) ! 0 \<ge> 31"
    by (simp add: slot_at_def slot_of_def sample_large_def get_or_def NUM_SLOTS_def)
  with labels_bounded_above[of 0 sample_large] show ?thesis by simp
qed

lemma load_loop_retained:
  "set (load_loop m i lines acc) \<subseteq> set acc \<union> {s. text_of s \<noteq> [] \<and> instructions s \<noteq> []}"
proof (induction lines arbitrary: i acc)
  case Nil
  then show ?case by simp
next
  case (Cons line rest)
  let ?G = "{s. text_of s \<noteq> [] \<and> instructions s \<noteq> []}"
  show ?case
  proof (cases "case m of None \<Rightarrow> False | Some k \<Rightarrow> k \<noteq> 0 \<and> i \<ge> k")
    case True
    then show ?thesis by auto
  next
    case running: False
    show ?thesis
    proof (cases line)
      case None
      with running Cons.IH[of "Suc i" acc] show ?thesis by simp
    next
      case (Some it)
      show ?thesis
      proof (cases "item_text it = [] \<or> item_instrs it = []")
        case True
        with running Some Cons.IH[of "Suc i" acc] show ?thesis by simp
      next
        case False
        let ?s = "\<lparr>text_of = item_text it, instructions = item_instrs it, category = item_cat it\<rparr>"
        from False have "set (acc @ [?s]) \<subseteq> set acc \<union> ?G" by auto
        with Cons.IH[of "Suc i" "acc @ [?s]"]
        have "set (load_loop m (Suc i) rest (acc @ [?s])) \<subseteq> set acc \<union> ?G" by blast
        with running Some False show ?thesis by simp
      qed
    qed
  qed
qed

lemma load_loop_skips:
  "item_text it = [] \<or> item_instrs it = [] \<Longrightarrow>
   load_loop m i (Some it # rest) acc = load_loop m i (None # rest) acc"
  by simp

text \<open>
  C10 (as amended). Every sample retained by the loader has a non-empty prompt text and a
  non-empty instruction list, and a line whose text or instruction list is empty or
  absent is passed over exactly as a line that does not parse. (Nothing is said about the
  validity flags of the retained records.)
\<close>

theorem loaded_samples_nonempty:
  "(\<forall>s \<in> set (load_samples m lines). text_of s \<noteq> [] \<and> instructions s \<noteq> []) \<and>
   (item_text it = [] \<or> item_instrs it = [] \<longrightarrow>
      load_samples m (Some it # rest) = load_samples m (None # rest))"
proof -
  have "set (load_samples m lines) \<subseteq> {s. text_of s \<noteq> [] \<and> instructions s \<noteq> []}"
    using load_loop_retained[of m 0 lines "[]"] by (simp add: load_samples_def)
  moreover have "item_text it = [] \<or> item_instrs it = [] \<longrightarrow>
      load_samples m (Some it # rest) = load_samples m (None # rest)"
    unfolding load_samples_def using load_loop_skips[of it m 0 rest "[]"] by blast
  ultimately show ?thesis by blast
qed

lemma load_empty_program:
  "load_samples None [Some item_empty_program] = [sample_empty_program]"
  by (simp add: load_samples_def item_empty_program_def sample_empty_program_def
      item_text_def item_instrs_def item_cat_def pad_instructions_def)

theorem loaded_samples_nonempty_witness:
  "sample_empty_program \<in> set (load_samples None [Some item_empty_program]) \<and>
   text_of sample_empty_program \<noteq> [] \<and> instructions sample_empty_program \<noteq> [] \<and>
   item_instrs item_no_instructions = [] \<and>
   load_samples None [Some item_no_instructions] = load_samples None [None]"
proof -
  have m: "sample_empty_program \<in> set (load_samples None [Some item_empty_program])"
    by (simp add: load_empty_program)
  have e: "item_instrs item_no_instructions = []"
    by (simp add: item_instrs_def item_no_instructions_def)
  from loaded_samples_nonempty[of None "[Some item_empty_program]" item_no_instructions "[]"] m e
  show ?thesis by blast
qed

text \<open>
  The last clause of C10 as stated fails: the loader retains the line of a program with
  no instruction, since its list holds 64 padding records, and every slot of the sample
  built from it has \<open>valid = 0\<close>.
\<close>

theorem all_padding_sample_is_loaded:
  "load_samples None [Some item_empty_program] = [sample_empty_program] \<and>
   valid (getitem_targets NUM_SLOTS sample_empty_program) = replicate 64 0"
proof -
  have "valid (getitem_targets 64 sample_empty_program) ! j = 0" if "j < 64" for j
  proof -
    from that getitem_targets_slot[of j 64 sample_empty_program]
    have "slot_at (getitem_targets 64 sample_empty_program) j = slot_of padding_record"
      by (simp add: sample_empty_program_def)
    then show ?thesis
      by (simp add: slot_at_def slot_of_def padding_record_def get_or_def)
  qed
  then have "valid (getitem_targets 64 sample_empty_program) = replicate 64 0"
    by (simp add: list_eq_iff_nth_eq getitem_targets_length)
  then show ?thesis by (simp add: load_empty_program NUM_SLOTS_def)
qed

section \<open>Properties of the training loop\<close>

lemma main_loop_inv:
  "epochs_run s \<le> epochs_run (main_loop p e rs s) \<and>
   epochs_run (main_loop p e rs s) - epochs_run s \<le> length rs \<and>
   best_opcode_acc s \<le> best_opcode_acc (main_loop p e rs s) \<and>
   (\<forall>i < epochs_run (main_loop p e rs s) - epochs_run s.
      val_opcode_acc (rs ! i) \<le> best_opcode_acc (main_loop p e rs s)) \<and>
   ((best_model_pt (main_loop p e rs s) = best_model_pt s \<and>
     best_opcode_acc (main_loop p e rs s) = best_opcode_acc s) \<or>
    (\<exists>k < epochs_run (main_loop p e rs s) - epochs_run s.
       best_model_pt (main_loop p e rs s) = Some (make_checkpoint (e + k) (rs ! k)) \<and>
       best_opcode_acc (main_loop p e rs s) = val_opcode_acc (rs ! k) \<and>
       best_opcode_acc s < val_opcode_acc (rs ! k) \<and>
       (\<forall>j < k. val_opcode_acc (rs ! j) < val_opcode_acc (rs ! k))))"
  (is "?P e rs s")
proof (induction rs arbitrary: e s)
  case Nil
  then show ?case by simp
next
  case (Cons r rs)
  let ?s1 = "s\<lparr>epochs_run := Suc (epochs_run s)\<rparr>"
  show ?case
  proof (cases "val_opcode_acc r > best_opcode_acc s")
    case better: True
    let ?sa = "save_best e r ?s1"
    let ?s' = "main_loop p (Suc e) rs ?sa"
    have eq: "main_loop p e (r # rs) s = ?s'" using better by (simp add: Let_def)
    have sa: "epochs_run ?sa = Suc (epochs_run s)" "best_opcode_acc ?sa = val_opcode_acc r"
      "best_model_pt ?sa = Some (make_checkpoint e r)"
      by (simp_all add: save_best_def)
    note IH = Cons.IH[of ?sa "Suc e"]
    let ?n' = "epochs_run ?s' - epochs_run ?sa"
    have n: "epochs_run ?s' - epochs_run s = Suc ?n'" using IH sa by linarith
    have all: "val_opcode_acc ((r # rs) ! i) \<le> best_opcode_acc ?s'" if "i < Suc ?n'" for i
    proof (cases i)
      case 0
      with IH sa show ?thesis by simp
    next
      case (Suc i')
      with that IH show ?thesis by simp
    qed
    from IH have "(best_model_pt ?s' = best_model_pt ?sa \<and> best_opcode_acc ?s' = best_opcode_acc ?sa) \<or>
      (\<exists>k < ?n'. best_model_pt ?s' = Some (make_checkpoint (Suc e + k) (rs ! k)) \<and>
         best_opcode_acc ?s' = val_opcode_acc (rs ! k) \<and>
         best_opcode_acc ?sa < val_opcode_acc (rs ! k) \<and>
         (\<forall>j < k. val_opcode_acc (rs ! j) < val_opcode_acc (rs ! k)))" by blast
    then have ex: "\<exists>k < Suc ?n'.
         best_model_pt ?s' = Some (make_checkpoint (e + k) ((r # rs) ! k)) \<and>
         best_opcode_acc ?s' = val_opcode_acc ((r # rs) ! k) \<and>
         best_opcode_acc s < val_opcode_acc ((r # rs) ! k) \<and>
         (\<forall>j < k. val_opcode_acc ((r # rs) ! j) < val_opcode_acc ((r # rs) ! k))"
    proof
      assume "best_model_pt ?s' = best_model_pt ?sa \<and> best_opcode_acc ?s' = best_opcode_acc ?sa"
      with sa better show ?thesis by (intro exI[of _ 0]) simp
    next
      assume "\<exists>k < ?n'. best_model_pt ?s' = Some (make_checkpoint (Suc e + k) (rs ! k)) \<and>
         best_opcode_acc ?s' = val_opcode_acc (rs ! k) \<and>
         best_opcode_acc ?sa < val_opcode_acc (rs ! k) \<and>
         (\<forall>j < k. val_opcode_acc (rs ! j) < val_opcode_acc (rs ! k))"
      then obtain k where k: "k < ?n'"
        "best_model_pt ?s' = Some (make_checkpoint (Suc e + k) (rs ! k))"
        "best_opcode_acc ?s' = val_opcode_acc (rs ! k)"
        "best_opcode_acc ?sa < val_opcode_acc (rs ! k)"
        "\<forall>j < k. val_opcode_acc (rs ! j) < val_opcode_acc (rs ! k)" by blast
      have "val_opcode_acc ((r # rs) ! j) < val_opcode_acc (rs ! k)" if "j < Suc k" for j
        using that k(4,5) sa(2) by (cases j) simp_all
      with k better sa(2) show ?thesis by (intro exI[of _ "Suc k"]) simp
    qed
    have "epochs_run s \<le> epochs_run ?s'" using IH sa by linarith
    moreover have "epochs_run ?s' - epochs_run s \<le> length (r # rs)" using IH n by simp
    moreover have "best_opcode_acc s \<le> best_opcode_acc ?s'" using IH sa better by linarith
    ultimately show ?thesis unfolding eq n using all ex by blast
  next
    case worse: False
    let ?s2 = "?s1\<lparr>patience_counter := patience_counter ?s1 + 1\<rparr>"
    show ?thesis
    proof (cases "int (patience_counter ?s2) \<ge> p")
      case True
      with worse have eq: "main_loop p e (r # rs) s = ?s2" by (simp add: Let_def)
      from worse show ?thesis unfolding eq by simp
    next
      case False
      let ?s' = "main_loop p (Suc e) rs ?s2"
      from worse False have eq: "main_loop p e (r # rs) s = ?s'" by (simp add: Let_def)
      have s2: "epochs_run ?s2 = Suc (epochs_run s)" "best_opcode_acc ?s2 = best_opcode_acc s"
        "best_model_pt ?s2 = best_model_pt s"
        by simp_all
      note IH = Cons.IH[of ?s2 "Suc e"]
      let ?n' = "epochs_run ?s' - epochs_run ?s2"
      have n: "epochs_run ?s' - epochs_run s = Suc ?n'" using IH s2 by linarith
      have all: "val_opcode_acc ((r # rs) ! i) \<le> best_opcode_acc ?s'" if "i < Suc ?n'" for i
      proof (cases i)
        case 0
        with IH s2 worse show ?thesis by simp
      next
        case (Suc i')
        with that IH show ?thesis by simp
      qed
      from IH have "(best_model_pt ?s' = best_model_pt ?s2 \<and> best_opcode_acc ?s' = best_opcode_acc ?s2) \<or>
        (\<exists>k < ?n'. best_model_pt ?s' = Some (make_checkpoint (Suc e + k) (rs ! k)) \<and>
           best_opcode_acc ?s' = val_opcode_acc (rs ! k) \<and>
           best_opcode_acc ?s2 < val_opcode_acc (rs ! k) \<and>
           (\<forall>j < k. val_opcode_acc (rs ! j) < val_opcode_acc (rs ! k)))" by blast
      then have dj: "(best_model_pt ?s' = best_model_pt s \<and> best_opcode_acc ?s' = best_opcode_acc s) \<or>
         (\<exists>k < Suc ?n'.
           best_model_pt ?s' = Some (make_checkpoint (e + k) ((r # rs) ! k)) \<and>
           best_opcode_acc ?s' = val_opcode_acc ((r # rs) ! k) \<and>
           best_opcode_acc s < val_opcode_acc ((r # rs) ! k) \<and>
           (\<forall>j < k. val_opcode_acc ((r # rs) ! j) < val_opcode_acc ((r # rs) ! k)))"
      proof
        assume "best_model_pt ?s' = best_model_pt ?s2 \<and> best_opcode_acc ?s' = best_opcode_acc ?s2"
        with s2 show ?thesis by simp
      next
        assume "\<exists>k < ?n'. best_model_pt ?s' = Some (make_checkpoint (Suc e + k) (rs ! k)) \<and>
           best_opcode_acc ?s' = val_opcode_acc (rs ! k) \<and>
           best_opcode_acc ?s2 < val_opcode_acc (rs ! k) \<and>
           (\<forall>j < k. val_opcode_acc (rs ! j) < val_opcode_acc (rs ! k))"
        then obtain k where k: "k < ?n'"
          "best_model_pt ?s' = Some (make_checkpoint (Suc e + k) (rs ! k))"
          "best_opcode_acc ?s' = val_opcode_acc (rs ! k)"
          "best_opcode_acc ?s2 < val_opcode_acc (rs ! k)"
          "\<forall>j < k. val_opcode_acc (rs ! j) < val_opcode_acc (rs ! k)" by blast
        have "val_opcode_acc ((r # rs) ! j) < val_opcode_acc (rs ! k)" if "j < Suc k" for j
          using that k(4,5) s2(2) worse by (cases j) simp_all
        with k s2(2) have "\<exists>k < Suc ?n'.
           best_model_pt ?s' = Some (make_checkpoint (e + k) ((r # rs) ! k)) \<and>
           best_opcode_acc ?s' = val_opcode_acc ((r # rs) ! k) \<and>
           best_opcode_acc s < val_opcode_acc ((r # rs) ! k) \<and>
           (\<forall>j < k. val_opcode_acc ((r # rs) ! j) < val_opcode_acc ((r # rs) ! k))"
          by (intro exI[of _ "Suc k"]) simp
        then show ?thesis by blast
      qed
      have "epochs_run s \<le> epochs_run ?s'" using IH s2 by linarith
      moreover have "epochs_run ?s' - epochs_run s \<le> length (r # rs)" using IH n by simp
      moreover have "best_opcode_acc s \<le> best_opcode_acc ?s'" using IH s2 by linarith
      ultimately show ?thesis unfolding eq n using all dj by blast
    qed
  qed
qed

lemma init_state_simps [simp]:
  "epochs_run init_state = 0" "best_opcode_acc init_state = 0" "best_model_pt init_state = None"
  "patience_counter init_state = 0"
  by (simp_all add: init_state_def)

text \<open>
  C9. One epoch replaces the saved best checkpoint exactly when its validation opcode
  accuracy is strictly above the best so far: an epoch that ties or falls below leaves the
  checkpoint untouched, whatever its validation loss. Over a whole run started from the
  initial state, the checkpoint left in \<^verbatim>\<open>best_model.pt\<close> is that of the first epoch
  reaching the highest accuracy among the epochs run; none is saved when no epoch is
  above the initial 0.
\<close>

theorem best_checkpoint_by_opcode_accuracy:
  "(val_opcode_acc r \<le> best_opcode_acc s \<longrightarrow>
      best_model_pt (main_loop p e [r] s) = best_model_pt s) \<and>
   (val_opcode_acc r > best_opcode_acc s \<longrightarrow>
      best_model_pt (main_loop p e [r] s) = Some (make_checkpoint e r)) \<and>
   (case best_model_pt (main_loop p e rs init_state) of
      None \<Rightarrow> (\<forall>i < epochs_run (main_loop p e rs init_state). val_opcode_acc (rs ! i) \<le> 0)
    | Some ck \<Rightarrow>
        (\<exists>k < epochs_run (main_loop p e rs init_state).
           ck = make_checkpoint (e + k) (rs ! k) \<and>
           (\<forall>j < k. val_opcode_acc (rs ! j) < val_opcode_acc (rs ! k)) \<and>
           (\<forall>i < epochs_run (main_loop p e rs init_state).
              val_opcode_acc (rs ! i) \<le> val_opcode_acc (rs ! k))))"
proof -
  have tie: "val_opcode_acc r \<le> best_opcode_acc s \<longrightarrow>
      best_model_pt (main_loop p e [r] s) = best_model_pt s"
    by (simp add: Let_def)
  have better: "val_opcode_acc r > best_opcode_acc s \<longrightarrow>
      best_model_pt (main_loop p e [r] s) = Some (make_checkpoint e r)"
    by (simp add: Let_def save_best_def)
  let ?s' = "main_loop p e rs init_state"
  note inv = main_loop_inv[of init_state p e rs]
  from inv have all: "\<forall>i < epochs_run ?s'. val_opcode_acc (rs ! i) \<le> best_opcode_acc ?s'"
    by simp
  from inv have dj: "(best_model_pt ?s' = None \<and> best_opcode_acc ?s' = 0) \<or>
      (\<exists>k < epochs_run ?s'. best_model_pt ?s' = Some (make_checkpoint (e + k) (rs ! k)) \<and>
         best_opcode_acc ?s' = val_opcode_acc (rs ! k) \<and>
         (\<forall>j < k. val_opcode_acc (rs ! j) < val_opcode_acc (rs ! k)))"
    by simp blast
  have run: "case best_model_pt ?s' of
      None \<Rightarrow> (\<forall>i < epochs_run ?s'. val_opcode_acc (rs ! i) \<le> 0)
    | Some ck \<Rightarrow>
        (\<exists>k < epochs_run ?s'.
           ck = make_checkpoint (e + k) (rs ! k) \<and>
           (\<forall>j < k. val_opcode_acc (rs ! j) < val_opcode_acc (rs ! k)) \<and>
           (\<forall>i < epochs_run ?s'. val_opcode_acc (rs ! i) \<le> val_opcode_acc (rs ! k)))"
    using dj
  proof
    assume "best_model_pt ?s' = None \<and> best_opcode_acc ?s' = 0"
    with all show ?thesis by simp
  next
    assume "\<exists>k < epochs_run ?s'. best_model_pt ?s' = Some (make_checkpoint (e + k) (rs ! k)) \<and>
         best_opcode_acc ?s' = val_opcode_acc (rs ! k) \<and>
         (\<forall>j < k. val_opcode_acc (rs ! j) < val_opcode_acc (rs ! k))"
    then obtain k where k: "k < epochs_run ?s'"
      "best_model_pt ?s' = Some (make_checkpoint (e + k) (rs ! k))"
      "best_opcode_acc ?s' = val_opcode_acc (rs ! k)"
      "\<forall>j < k. val_opcode_acc (rs ! j) < val_opcode_acc (rs ! k)" by blast
    from all k(3) have "\<forall>i < epochs_run ?s'. val_opcode_acc (rs ! i) \<le> val_opcode_acc (rs ! k)"
      by simp
    with k show ?thesis by auto
  qed
  from tie better run show ?thesis by blast
qed

lemma demo_run:
  "main_loop 5 0 demo_epochs init_state =
     \<lparr>best_val_loss = Some 2, best_opcode_acc = 3 / 4, patience_counter = 1,
      best_model_pt = Some (make_checkpoint 2 (demo_epochs ! 2)), epochs_run = 4\<rparr>"
  by (simp add: demo_epochs_def init_state_def save_best_def make_checkpoint_def Let_def)

text \<open>Epoch 1 of the demonstration run ties epoch 0 at accuracy 1/2 with a lower loss and
  does not replace its checkpoint; the run keeps epoch 2, the first to reach 3/4.\<close>

theorem best_checkpoint_by_opcode_accuracy_witness:
  "val_opcode_acc (demo_epochs ! 1) \<le> best_opcode_acc (main_loop 5 0 [demo_epochs ! 0] init_state) \<and>
   val_total (demo_epochs ! 1) < val_total (demo_epochs ! 0) \<and>
   best_model_pt (main_loop 5 1 [demo_epochs ! 1] (main_loop 5 0 [demo_epochs ! 0] init_state)) =
     Some (make_checkpoint 0 (demo_epochs ! 0)) \<and>
   best_model_pt (main_loop 5 0 demo_epochs init_state) = Some (make_checkpoint 2 (demo_epochs ! 2))"
proof -
  let ?s = "main_loop 5 0 [demo_epochs ! 0] init_state :: nat loop_state"
  have s: "best_opcode_acc ?s = 1 / 2" "best_model_pt ?s = Some (make_checkpoint 0 (demo_epochs ! 0))"
    by (simp_all add: demo_epochs_def init_state_def save_best_def Let_def)
  have h: "val_opcode_acc (demo_epochs ! 1) \<le> best_opcode_acc ?s"
    unfolding s by (simp add: demo_epochs_def)
  have l: "val_total (demo_epochs ! 1) < val_total (demo_epochs ! 0)"
    by (simp add: demo_epochs_def)
  from best_checkpoint_by_opcode_accuracy[of "demo_epochs ! 1" ?s 5 1 demo_epochs] h
  have "best_model_pt (main_loop 5 1 [demo_epochs ! 1] ?s) = best_model_pt ?s" by blast
  with h l s(2) demo_run show ?thesis by simp
qed

section \<open>Properties of the loss\<close>

lemma init_ce_loss [simp]:
  "ce_loss (ParallelInstructionLoss_init vw ow mw rw iw) = CrossEntropyLoss_none"
  by (simp add: ParallelInstructionLoss_init_def)

text \<open>Labels in range make the criterion return the per-slot values.\<close>

lemma collect_cross_entropy:
  "list_all2 (\<lambda>r t. label_ok (length r) t) rows tg \<Longrightarrow>
   collect (map2 cross_entropy rows tg) = Inr (map2 ce_value rows tg)"
  by (induction rule: list_all2_induct) (simp_all add: cross_entropy_def)

lemma sum_list_nth_sum: "sum_list xs = (\<Sum>k<length xs. xs ! k)"
  by (simp add: sum_list_sum_nth atLeast0LessThan)

text \<open>Row \<open>k\<close> of well-formed scores has \<open>classes\<close> entries.\<close>

lemma length_slot_scores:
  assumes "scores_shape b s c lg" and "k < b * s"
  shows "length (slot_scores lg k) = c"
proof -
  from assms(2) have "Suc k \<le> b * s" by simp
  then have "Suc k * c \<le> b * s * c" by (rule mult_le_mono1)
  then have "c \<le> b * s * c - k * c" by simp
  with assms(1) show ?thesis by (simp add: slot_scores_def scores_shape_def)
qed

lemma view_rows_ok:
  assumes "scores_shape b s c lg" and "0 < c"
  shows "view_rows lg = Inr (map (slot_scores lg) [0..<b * s])"
  using assms by (simp add: view_rows_def scores_shape_def)

text \<open>The per-slot losses of a well-formed head.\<close>

lemma slot_losses_ok:
  assumes "ce_loss crit = CrossEntropyLoss_none" and "head_ok b s lg tg"
  shows "slot_losses crit lg tg =
           Inr \<lparr>dim0 = b, dim1 = s,
                data = map (\<lambda>k. ce_value (slot_scores lg k) (data tg ! k)) [0..<b * s]\<rparr>"
proof -
  let ?c = "n_classes lg"
  let ?rows = "map (slot_scores lg) [0..<b * s]"
  from assms(2) have sh: "scores_shape b s ?c lg" and c: "0 < ?c"
    and ls: "dim0 tg = b" "dim1 tg = s" "length (data tg) = b * s"
    and rg: "list_all (label_ok ?c) (data tg)"
    by (simp_all add: head_ok_def labels_shape_def labels_in_range_def)
  have vr: "view_rows lg = Inr ?rows" using sh c by (rule view_rows_ok)
  have "list_all2 (\<lambda>r t. label_ok (length r) t) ?rows (data tg)"
    using ls(3) rg length_slot_scores[OF sh]
    by (simp add: list_all2_conv_all_nth list_all_length)
  then have "collect (map2 cross_entropy ?rows (data tg)) = Inr (map2 ce_value ?rows (data tg))"
    by (rule collect_cross_entropy)
  moreover have "map2 ce_value ?rows (data tg) =
      map (\<lambda>k. ce_value (slot_scores lg k) (data tg ! k)) [0..<b * s]"
    using ls(3) by (simp add: list_eq_iff_nth_eq)
  ultimately have "CrossEntropyLoss_none ?rows (data tg) =
      Inr (map (\<lambda>k. ce_value (slot_scores lg k) (data tg ! k)) [0..<b * s])"
    using ls(3) by (simp add: CrossEntropyLoss_none_def)
  with vr ls(1,2) assms(1) show ?thesis by (simp add: slot_losses_def)
qed

text \<open>The product with a mask of the same shape, summed.\<close>

lemma tsum_tmul_same_shape:
  assumes "dim0 a = b" "dim1 a = s" "length (data a) = n"
    and "dim0 m = b" "dim1 m = s" "length (data m) = n"
  shows "\<exists>p. tmul a m = Inr p \<and> tsum p = (\<Sum>k<n. data a ! k * data m ! k)"
proof -
  have "tmul a m = Inr \<lparr>dim0 = b, dim1 = s, data = map2 (*) (data a) (data m)\<rparr>"
    using assms by (simp add: tmul_def broadcast_dim_def expand2_def)
  moreover have "sum_list (map2 (*) (data a) (data m)) = (\<Sum>k<n. data a ! k * data m ! k)"
    using assms(3,6) by (simp add: sum_list_nth_sum)
  ultimately show ?thesis by (simp add: tsum_def)
qed

lemma sum_list_real_of_int: "sum_list (map real_of_int xs) = real_of_int (sum_list xs)"
  by (induction xs) simp_all

lemma tsum_to_float:
  "length (data v) = n \<Longrightarrow> tsum (to_float v) = real_of_int (\<Sum>k<n. data v ! k)"
  using sum_list_nth_sum[of "data v"] by (simp add: tsum_def to_float_def sum_list_real_of_int)

text \<open>An integer plus the epsilon of line 331 is never zero.\<close>

lemma int_plus_eps_nonzero: "real_of_int k + 1 / 10 ^ 8 \<noteq> 0"
proof (cases "0 \<le> k")
  case True
  then have "0 \<le> real_of_int k" by simp
  then have "0 < real_of_int k + 1 / 10 ^ 8" by simp
  then show ?thesis by simp
next
  case False
  then have "k \<le> - 1" by simp
  then have "real_of_int k \<le> - 1" by (metis of_int_le_iff of_int_minus of_int_1)
  then have "real_of_int k + 1 / 10 ^ 8 < 0" by simp
  then show ?thesis by simp
qed

text \<open>The loss of a masked head on a well-formed batch.\<close>

lemma head_loss_masked:
  assumes "ce_loss crit = CrossEntropyLoss_none" and "name \<noteq> ''valid''"
    and "head_ok b s (logits name) (tgts name)" and "labels_shape b s (tgts ''valid'')"
  shows "head_loss crit name logits tgts =
           Inr ((\<Sum>k<b * s. ce_value (slot_scores (logits name) k) (data (tgts name) ! k)
                              * real_of_int (data (tgts ''valid'') ! k))
                / (real_of_int (\<Sum>k<b * s. data (tgts ''valid'') ! k) + 1 / 10 ^ 8))"
proof -
  let ?L = "\<lparr>dim0 = b, dim1 = s,
             data = map (\<lambda>k. ce_value (slot_scores (logits name) k) (data (tgts name) ! k))
                        [0..<b * s]\<rparr>"
  let ?M = "to_float (tgts ''valid'')"
  from assms(4) have v: "dim0 (tgts ''valid'') = b" "dim1 (tgts ''valid'') = s"
    "length (data (tgts ''valid'')) = b * s"
    by (simp_all add: labels_shape_def)
  have sl: "slot_losses crit (logits name) (tgts name) = Inr ?L"
    using assms(1,3) by (rule slot_losses_ok)
  have "\<exists>p. tmul ?L ?M = Inr p \<and> tsum p = (\<Sum>k<b * s. data ?L ! k * data ?M ! k)"
    using v by (intro tsum_tmul_same_shape) (simp_all add: to_float_def)
  then obtain p where p: "tmul ?L ?M = Inr p"
    and sp: "tsum p = (\<Sum>k<b * s. data ?L ! k * data ?M ! k)" by blast
  have "(\<Sum>k<b * s. data ?L ! k * data ?M ! k) =
        (\<Sum>k<b * s. ce_value (slot_scores (logits name) k) (data (tgts name) ! k)
                      * real_of_int (data (tgts ''valid'') ! k))"
    using v(3) by (intro sum.cong) (simp_all add: to_float_def)
  with sp have sp': "tsum p =
        (\<Sum>k<b * s. ce_value (slot_scores (logits name) k) (data (tgts name) ! k)
                      * real_of_int (data (tgts ''valid'') ! k))" by simp
  have den: "tsum ?M = real_of_int (\<Sum>k<b * s. data (tgts ''valid'') ! k)"
    using v(3) by (rule tsum_to_float)
  show ?thesis
    using assms(2) sl p int_plus_eps_nonzero[of "\<Sum>k<b * s. data (tgts ''valid'') ! k"]
    by (simp add: head_loss_def Let_def tdiv_def sp' den)
qed

text \<open>The loss of the \<open>valid\<close> head on a well-formed batch of at least one slot.\<close>

lemma head_loss_valid:
  assumes "ce_loss crit = CrossEntropyLoss_none"
    and "head_ok b s (logits ''valid'') (tgts ''valid'')" and "1 \<le> b" and "1 \<le> s"
  shows "head_loss crit ''valid'' logits tgts =
           Inr ((\<Sum>k<b * s. ce_value (slot_scores (logits ''valid'') k) (data (tgts ''valid'') ! k))
                / real (b * s))"
proof -
  have sl: "slot_losses crit (logits ''valid'') (tgts ''valid'') =
      Inr \<lparr>dim0 = b, dim1 = s,
           data = map (\<lambda>k. ce_value (slot_scores (logits ''valid'') k) (data (tgts ''valid'') ! k))
                      [0..<b * s]\<rparr>"
    using assms(1,2) by (rule slot_losses_ok)
  have "sum_list (map (\<lambda>k. ce_value (slot_scores (logits ''valid'') k) (data (tgts ''valid'') ! k))
                      [0..<b * s]) =
        (\<Sum>k<b * s. ce_value (slot_scores (logits ''valid'') k) (data (tgts ''valid'') ! k))"
    by (simp add: sum_list_nth_sum)
  moreover from assms(3,4) have "b * s \<noteq> 0" by simp
  ultimately show ?thesis
    using sl by (simp add: head_loss_def Let_def tmean_def tdiv_def tsum_def numel_def)
qed

lemma sum_zero_one_count:
  "list_all (\<lambda>v. v = 0 \<or> v = 1) xs \<Longrightarrow>
   (\<Sum>k<length xs. xs ! k) = int (length (filter (\<lambda>v. v = 1) xs))"
  unfolding sum_list_nth_sum[symmetric] by (induction xs) auto

text \<open>
  C3. On every batch whose scores and labels have the shapes (b, s, classes) and (b, s)
  and whose labels lie in the class range of their head (the batches on which the
  criterion does not raise), the loss of a head other than \<open>valid\<close> is the sum over all
  slots of the per-slot cross-entropy times the validity mask, divided by the sum of the
  mask plus \<open>1e-8\<close>. The divisor is never zero; for a 0/1 mask its first summand is the
  count of valid slots; and on a batch whose mask is all zero the loss is 0.
\<close>

theorem masked_head_loss_defined:
  assumes "name \<noteq> ''valid''"
    and "head_ok b s (logits name) (tgts name)"
    and "labels_shape b s (tgts ''valid'')"
  shows "real_of_int (\<Sum>k<b * s. data (tgts ''valid'') ! k) + 1 / 10 ^ 8 \<noteq> 0 \<and>
         head_loss (ParallelInstructionLoss_init vw ow mw rw iw) name logits tgts =
           Inr ((\<Sum>k<b * s. ce_value (slot_scores (logits name) k) (data (tgts name) ! k)
                              * real_of_int (data (tgts ''valid'') ! k))
                / (real_of_int (\<Sum>k<b * s. data (tgts ''valid'') ! k) + 1 / 10 ^ 8)) \<and>
         (list_all (\<lambda>v. v = 0 \<or> v = 1) (data (tgts ''valid'')) \<longrightarrow>
            (\<Sum>k<b * s. data (tgts ''valid'') ! k) =
              int (length (filter (\<lambda>v. v = 1) (data (tgts ''valid''))))) \<and>
         (list_all (\<lambda>v. v = 0) (data (tgts ''valid'')) \<longrightarrow>
            head_loss (ParallelInstructionLoss_init vw ow mw rw iw) name logits tgts = Inr 0)"
proof -
  let ?crit = "ParallelInstructionLoss_init vw ow mw rw iw"
  let ?v = "data (tgts ''valid'')"
  from assms(3) have len: "length ?v = b * s" by (simp add: labels_shape_def)
  have h: "head_loss ?crit name logits tgts =
           Inr ((\<Sum>k<b * s. ce_value (slot_scores (logits name) k) (data (tgts name) ! k)
                              * real_of_int (?v ! k))
                / (real_of_int (\<Sum>k<b * s. ?v ! k) + 1 / 10 ^ 8))"
    using assms by (intro head_loss_masked) simp_all
  have cnt: "(\<Sum>k<b * s. ?v ! k) = int (length (filter (\<lambda>v. v = 1) ?v))"
    if "list_all (\<lambda>v. v = 0 \<or> v = 1) ?v"
    using sum_zero_one_count[OF that] len by simp
  have z: "head_loss ?crit name logits tgts = Inr 0" if "list_all (\<lambda>v. v = 0) ?v"
  proof -
    from that len have "?v ! k = 0" if "k < b * s" for k
      using that by (simp add: list_all_length)
    then have "(\<Sum>k<b * s. ce_value (slot_scores (logits name) k) (data (tgts name) ! k)
                              * real_of_int (?v ! k)) = 0"
      by (intro sum.neutral) simp
    with h show ?thesis by simp
  qed
  from h cnt z int_plus_eps_nonzero[of "\<Sum>k<b * s. ?v ! k"] show ?thesis by blast
qed

text \<open>Slot \<open>k\<close> of uniform scores, and its cross-entropy.\<close>

lemma take_drop_replicate:
  assumes "k < n"
  shows "take c (drop (k * c) (replicate (n * c) x)) = replicate c x"
proof -
  from assms have "Suc k \<le> n" by simp
  then have "Suc k * c \<le> n * c" by (rule mult_le_mono1)
  then have "c \<le> n * c - k * c" by simp
  then show ?thesis by (simp add: min_def)
qed

lemma uniform_slot_scores:
  "k < 64 \<Longrightarrow> slot_scores (uniform_logits name) k = replicate (head_classes name) 0"
  using take_drop_replicate[of k 64 "head_classes name" "0::real"]
  by (simp add: slot_scores_def uniform_logits_def)

lemma uniform_ce_value:
  "k < 64 \<Longrightarrow> label_ok (head_classes name) t \<Longrightarrow> t \<noteq> - 100 \<Longrightarrow>
   ce_value (slot_scores (uniform_logits name) k) t = ln (real (head_classes name))"
proof -
  assume k: "k < 64" and ok: "label_ok (head_classes name) t" and t: "t \<noteq> - 100"
  from ok t have "nat t < head_classes name" by (simp add: label_ok_def nat_less_iff)
  then have "replicate (head_classes name) (0::real) ! nat t = 0" by simp
  with k t show ?thesis
    by (simp add: uniform_slot_scores ce_value_def sum_list_replicate)
qed

lemma uniform_head_ok:
  "list_all (label_ok (head_classes name)) (data tg) \<Longrightarrow> labels_shape 1 64 tg \<Longrightarrow>
   head_ok 1 64 (uniform_logits name) tg"
  by (simp add: head_ok_def scores_shape_def labels_in_range_def uniform_logits_def
      head_classes_def NUM_OPCODES_def NUM_MODES_def NUM_REGISTERS_def IMM_BINS_def)

lemma demo_labels_shape:
  "labels_shape 1 64 (all_padding_targets name)" "labels_shape 1 64 (all_valid_targets name)"
  "labels_shape 1 64 (two_valid_targets name)"
  by (simp_all add: labels_shape_def all_padding_targets_def all_valid_targets_def
      two_valid_targets_def)

lemma demo_labels_in_range:
  "list_all (label_ok (head_classes name)) (data (all_padding_targets name))"
  "list_all (label_ok (head_classes name)) (data (all_valid_targets name))"
  "list_all (label_ok (head_classes name)) (data (two_valid_targets name))"
  by (simp_all add: all_padding_targets_def all_valid_targets_def two_valid_targets_def
      list_all_iff label_ok_def head_classes_def NUM_OPCODES_def NUM_MODES_def
      NUM_REGISTERS_def IMM_BINS_def)

text \<open>With two valid slots out of 64 and uniform scores over the 33 opcodes, the opcode
  loss is \<open>(ln 33 + ln 33) / (2 + 1e-8)\<close>; with no valid slot it is 0.\<close>

theorem masked_head_loss_defined_witness:
  "''opcode'' \<noteq> ''valid'' \<and>
   head_ok 1 64 (uniform_logits ''opcode'') (two_valid_targets ''opcode'') \<and>
   labels_shape 1 64 (two_valid_targets ''valid'') \<and>
   head_loss default_criterion ''opcode'' uniform_logits two_valid_targets =
     Inr ((ln 33 + ln 33) / (2 + 1 / 10 ^ 8)) \<and>
   list_all (\<lambda>v. v = 0) (data (all_padding_targets ''valid'')) \<and>
   head_loss default_criterion ''opcode'' uniform_logits all_padding_targets = Inr 0"
proof -
  have n: "''opcode'' \<noteq> ''valid''" by simp
  have ok2: "head_ok 1 64 (uniform_logits ''opcode'') (two_valid_targets ''opcode'')"
    by (rule uniform_head_ok[OF demo_labels_in_range(3) demo_labels_shape(3)])
  have ok0: "head_ok 1 64 (uniform_logits ''opcode'') (all_padding_targets ''opcode'')"
    by (rule uniform_head_ok[OF demo_labels_in_range(1) demo_labels_shape(1)])
  have z: "list_all (\<lambda>v. v = 0) (data (all_padding_targets ''valid''))"
    by (simp add: all_padding_targets_def list_all_iff)
  let ?F = "\<lambda>k. ce_value (slot_scores (uniform_logits ''opcode'') k)
                    (data (two_valid_targets ''opcode'') ! k)
                  * real_of_int (data (two_valid_targets ''valid'') ! k)"
  have tail: "?F k = 0" if "k \<in> {2..<64}" for k
  proof -
    from that have "k - 2 < 62" "\<not> k < 2" by auto
    then have "data (two_valid_targets ''valid'') ! k = 0"
      by (simp add: two_valid_targets_def nth_append)
    then show ?thesis by simp
  qed
  have "(\<Sum>k<64. ?F k) = (\<Sum>k = 0..<2. ?F k) + (\<Sum>k = 2..<64. ?F k)"
    by (simp add: sum.atLeastLessThan_concat flip: atLeast0LessThan)
  also have "(\<Sum>k = 2..<64. ?F k) = 0" using tail by (intro sum.neutral) blast
  also have "(\<Sum>k = 0..<2. ?F k) = ?F 0 + ?F 1" by (simp add: numeral_2_eq_2)
  also have "?F 0 = ln 33"
    using uniform_ce_value[of 0 "''opcode''" 4]
    by (simp add: two_valid_targets_def label_ok_def head_classes_def NUM_OPCODES_def)
  also have "?F 1 = ln 33"
    using uniform_ce_value[of 1 "''opcode''" 1]
    by (simp add: two_valid_targets_def label_ok_def head_classes_def NUM_OPCODES_def)
  finally have num: "(\<Sum>k<64. ?F k) = ln 33 + ln 33" by simp
  let ?V = "\<lambda>k. data (two_valid_targets ''valid'') ! k"
  have "(\<Sum>k<64. ?V k) = sum_list (data (two_valid_targets ''valid''))"
    by (simp add: sum_list_nth_sum two_valid_targets_def)
  also have "\<dots> = 2" by (simp add: two_valid_targets_def sum_list_replicate)
  finally have den: "(\<Sum>k<64. ?V k) = 2" .
  from masked_head_loss_defined[where name = "''opcode''" and logits = uniform_logits
      and tgts = two_valid_targets and b = 1 and s = 64
      and vw = 1 and ow = 2 and mw = 1 and rw = 1 and iw = "1 / 2"]
    n ok2 demo_labels_shape(3)
  have two: "head_loss default_criterion ''opcode'' uniform_logits two_valid_targets =
     Inr ((ln 33 + ln 33) / (2 + 1 / 10 ^ 8))"
    by (simp add: default_criterion_def num den)
  from masked_head_loss_defined[where name = "''opcode''" and logits = uniform_logits
      and tgts = all_padding_targets and b = 1 and s = 64
      and vw = 1 and ow = 2 and mw = 1 and rw = 1 and iw = "1 / 2"]
    n ok0 demo_labels_shape(1)[of "''valid''"] z
  have zero: "head_loss default_criterion ''opcode'' uniform_logits all_padding_targets = Inr 0"
    unfolding default_criterion_def by blast
  from n ok2 demo_labels_shape(3) two z zero show ?thesis by blast
qed

text \<open>
  C5. On every batch of at least one sample whose \<open>valid\<close> scores and labels have the
  shapes (b, 64, classes) and (b, 64) and whose labels lie in the class range (the batches
  on which the criterion does not raise), the loss of the \<open>valid\<close> head is the sum of
  the per-slot cross-entropy over all 64 slots of every sample, divided by their number
  \<open>b * 64\<close>: no mask enters it and the division is defined. In particular it is defined
  for a sample whose slots are all valid and for one whose slots are all padding.
\<close>

theorem valid_head_loss_unmasked:
  assumes "head_ok b 64 (logits ''valid'') (tgts ''valid'')" and "1 \<le> b"
  shows "head_loss (ParallelInstructionLoss_init vw ow mw rw iw) ''valid'' logits tgts =
           Inr ((\<Sum>k<b * 64. ce_value (slot_scores (logits ''valid'') k)
                                 (data (tgts ''valid'') ! k))
                / real (b * 64))"
  using head_loss_valid[where crit = "ParallelInstructionLoss_init vw ow mw rw iw"
      and logits = logits and tgts = tgts and b = b and s = 64] assms
  by simp

lemma uniform_valid_sum:
  assumes "list_all (\<lambda>v. v = 0 \<or> v = 1) (data tg)" and "length (data tg) = 64"
  shows "(\<Sum>k<1 * 64. ce_value (slot_scores (uniform_logits ''valid'') k) (data tg ! k)) =
           64 * ln 2"
proof -
  have "ce_value (slot_scores (uniform_logits ''valid'') k) (data tg ! k) = ln 2"
    if "k \<in> {..<1 * 64}" for k
  proof -
    from that have k: "k < 64" by simp
    with assms have "data tg ! k = 0 \<or> data tg ! k = 1" by (simp add: list_all_length)
    then have "label_ok (head_classes ''valid'') (data tg ! k)" "data tg ! k \<noteq> - 100"
      by (auto simp: label_ok_def head_classes_def)
    from uniform_ce_value[OF k this] show ?thesis by (simp add: head_classes_def)
  qed
  then have "(\<Sum>k<1 * 64. ce_value (slot_scores (uniform_logits ''valid'') k) (data tg ! k)) =
      (\<Sum>k\<in>{..<(1::nat) * 64}. ln (2::real))"
    by (intro sum.cong) simp_all
  then show ?thesis by simp
qed

theorem valid_head_loss_unmasked_witness:
  "head_ok 1 64 (uniform_logits ''valid'') (all_valid_targets ''valid'') \<and>
   head_ok 1 64 (uniform_logits ''valid'') (all_padding_targets ''valid'') \<and> (1::nat) \<le> 1 \<and>
   data (all_valid_targets ''valid'') = replicate 64 1 \<and>
   data (all_padding_targets ''valid'') = replicate 64 0 \<and>
   head_loss default_criterion ''valid'' uniform_logits all_valid_targets = Inr (ln 2) \<and>
   head_loss default_criterion ''valid'' uniform_logits all_padding_targets = Inr (ln 2)"
proof -
  have one: "(1::nat) \<le> 1" by simp
  have okv: "head_ok 1 64 (uniform_logits ''valid'') (all_valid_targets ''valid'')"
    by (rule uniform_head_ok[OF demo_labels_in_range(2) demo_labels_shape(2)])
  have okp: "head_ok 1 64 (uniform_logits ''valid'') (all_padding_targets ''valid'')"
    by (rule uniform_head_ok[OF demo_labels_in_range(1) demo_labels_shape(1)])
  have dv: "data (all_valid_targets ''valid'') = replicate 64 1"
    and dp: "data (all_padding_targets ''valid'') = replicate 64 0"
    by (simp_all add: all_valid_targets_def all_padding_targets_def)
  have sv: "(\<Sum>k<1 * 64. ce_value (slot_scores (uniform_logits ''valid'') k)
                            (data (all_valid_targets ''valid'') ! k)) = 64 * ln 2"
    by (rule uniform_valid_sum) (simp_all add: dv list_all_iff)
  have sp: "(\<Sum>k<1 * 64. ce_value (slot_scores (uniform_logits ''valid'') k)
                            (data (all_padding_targets ''valid'') ! k)) = 64 * ln 2"
    by (rule uniform_valid_sum) (simp_all add: dp list_all_iff)
  from valid_head_loss_unmasked[where logits = uniform_logits and tgts = all_valid_targets
      and b = 1 and vw = 1 and ow = 2 and mw = 1 and rw = 1 and iw = "1 / 2"] okv one
  have v: "head_loss default_criterion ''valid'' uniform_logits all_valid_targets = Inr (ln 2)"
    unfolding sv default_criterion_def by simp
  from valid_head_loss_unmasked[where logits = uniform_logits and tgts = all_padding_targets
      and b = 1 and vw = 1 and ow = 2 and mw = 1 and rw = 1 and iw = "1 / 2"] okp one
  have p: "head_loss default_criterion ''valid'' uniform_logits all_padding_targets = Inr (ln 2)"
    unfolding sp default_criterion_def by simp
  from okv okp dv dp v p show ?thesis by simp
qed

text \<open>The loop adds, for each head name, the weight times the loss it stores under
  that name.\<close>

lemma forward_loop_weighted_sum:
  "forward_loop crit logits tgts names t0 l0 = Inr (t, l) \<Longrightarrow> distinct names \<Longrightarrow>
   t = t0 + (\<Sum>n\<leftarrow>names. weights crit n * the (l n)) \<and>
   (\<forall>n. n \<notin> set names \<longrightarrow> l n = l0 n) \<and>
   (\<forall>n \<in> set names. l n \<noteq> None \<and> head_loss crit n logits tgts = Inr (the (l n)))"
proof (induction names arbitrary: t0 l0)
  case Nil
  then show ?case by simp
next
  case (Cons name names)
  from Cons.prems(1) obtain loss where loss: "head_loss crit name logits tgts = Inr loss"
    and rest: "forward_loop crit logits tgts names (t0 + weights crit name * loss)
                 (l0(name \<mapsto> loss)) = Inr (t, l)"
    by (auto split: sum.splits)
  from Cons.prems(2) have d: "distinct names" "name \<notin> set names" by simp_all
  from Cons.IH[OF rest d(1)]
  have t: "t = t0 + weights crit name * loss + (\<Sum>n\<leftarrow>names. weights crit n * the (l n))"
    and keep: "\<forall>n. n \<notin> set names \<longrightarrow> l n = (l0(name \<mapsto> loss)) n"
    and hl: "\<forall>n \<in> set names. l n \<noteq> None \<and> head_loss crit n logits tgts = Inr (the (l n))"
    by blast+
  from keep d(2) have ln: "l name = Some loss" by simp
  from keep have k: "\<forall>n. n \<notin> set (name # names) \<longrightarrow> l n = l0 n" by simp
  from t ln have s: "t = t0 + (\<Sum>n\<leftarrow>name # names. weights crit n * the (l n))" by simp
  from ln loss have "l name \<noteq> None \<and> head_loss crit name logits tgts = Inr (the (l name))"
    by simp
  with hl
  have h: "\<forall>n \<in> set (name # names).
             l n \<noteq> None \<and> head_loss crit n logits tgts = Inr (the (l n))"
    by simp
  from s k h show ?case by blast
qed

lemma forward_loop_defined:
  "\<forall>n \<in> set names. \<exists>v. head_loss crit n logits tgts = Inr v \<Longrightarrow>
   \<exists>r. forward_loop crit logits tgts names t0 l0 = Inr r"
  by (induction names arbitrary: t0 l0) auto

text \<open>The loss returns on every well-formed batch of at least one sample and one
  slot.\<close>

lemma forward_defined:
  assumes "batch_ok b s logits tgts" and "1 \<le> b" and "1 \<le> s"
  shows "\<exists>total_loss losses.
           forward (ParallelInstructionLoss_init vw ow mw rw iw) logits tgts =
             Inr (total_loss, losses)"
proof -
  let ?crit = "ParallelInstructionLoss_init vw ow mw rw iw"
  from assms(1) have ok: "head_ok b s (logits n) (tgts n)" if "n \<in> set head_names" for n
    using that by (simp add: batch_ok_def list_all_iff)
  then have v: "head_ok b s (logits ''valid'') (tgts ''valid'')"
    by (simp add: head_names_def)
  then have vs: "labels_shape b s (tgts ''valid'')" by (simp add: head_ok_def)
  have "\<exists>v. head_loss ?crit n logits tgts = Inr v" if "n \<in> set head_names" for n
  proof (cases "n = ''valid''")
    case True
    with head_loss_valid[where crit = ?crit and logits = logits and tgts = tgts
        and b = b and s = s] v assms(2,3)
    show ?thesis by simp
  next
    case False
    with head_loss_masked[where crit = ?crit and name = n and logits = logits and tgts = tgts
        and b = b and s = s] ok[OF that] vs
    show ?thesis by simp
  qed
  then obtain r where "forward_loop ?crit logits tgts head_names 0 Map.empty = Inr r"
    using forward_loop_defined[of head_names ?crit logits tgts 0 Map.empty] by blast
  then show ?thesis by (cases r) (simp add: forward_def)
qed

text \<open>
  C4. Whenever the loss built with the default weights returns, the total equals the
  weighted sum of the eight per-head losses stored in the returned dict, with weight 2 for
  \<open>opcode\<close>, 1/2 for \<open>has_imm\<close> and \<open>imm_bin\<close> and 1 for the other five; the dict
  holds the total under \<open>total\<close> and each head's own average under its name.
\<close>

theorem total_loss_is_weighted_sum:
  assumes "forward default_criterion logits tgts = Inr (total_loss, losses)"
  shows "total_loss =
           1 * the (losses ''valid'') + 2 * the (losses ''opcode'') + 1 * the (losses ''mode'') +
           1 * the (losses ''rd'') + 1 * the (losses ''rs1'') + 1 * the (losses ''rs2'') +
           1 / 2 * the (losses ''has_imm'') + 1 / 2 * the (losses ''imm_bin'') \<and>
         losses ''total'' = Some total_loss \<and>
         (\<forall>n \<in> set head_names.
            losses n \<noteq> None \<and>
            head_loss default_criterion n logits tgts = Inr (the (losses n)))"
proof -
  from assms obtain l where
    loop: "forward_loop default_criterion logits tgts head_names 0 Map.empty = Inr (total_loss, l)"
    and losses: "losses = l(''total'' \<mapsto> total_loss)"
    by (auto simp: forward_def split: sum.splits)
  have dist: "distinct head_names" by (simp add: head_names_def)
  from forward_loop_weighted_sum[OF loop dist]
  have t: "total_loss = 0 + (\<Sum>n\<leftarrow>head_names. weights default_criterion n * the (l n))"
    and hl: "\<forall>n \<in> set head_names.
               l n \<noteq> None \<and> head_loss default_criterion n logits tgts = Inr (the (l n))"
    by blast+
  have same: "losses n = l n" if "n \<in> set head_names" for n
    using that losses by (auto simp: head_names_def)
  from t have "total_loss =
           1 * the (l ''valid'') + 2 * the (l ''opcode'') + 1 * the (l ''mode'') +
           1 * the (l ''rd'') + 1 * the (l ''rs1'') + 1 * the (l ''rs2'') +
           1 / 2 * the (l ''has_imm'') + 1 / 2 * the (l ''imm_bin'')"
    by (simp add: head_names_def default_criterion_def ParallelInstructionLoss_init_def)
  moreover have "l ''valid'' = losses ''valid''" "l ''opcode'' = losses ''opcode''"
    "l ''mode'' = losses ''mode''" "l ''rd'' = losses ''rd''" "l ''rs1'' = losses ''rs1''"
    "l ''rs2'' = losses ''rs2''" "l ''has_imm'' = losses ''has_imm''"
    "l ''imm_bin'' = losses ''imm_bin''"
    using losses by simp_all
  moreover have "losses ''total'' = Some total_loss" using losses by simp
  ultimately have s: "total_loss =
           1 * the (losses ''valid'') + 2 * the (losses ''opcode'') + 1 * the (losses ''mode'') +
           1 * the (losses ''rd'') + 1 * the (losses ''rs1'') + 1 * the (losses ''rs2'') +
           1 / 2 * the (losses ''has_imm'') + 1 / 2 * the (losses ''imm_bin'')"
    and tot: "losses ''total'' = Some total_loss"
    by simp_all
  from hl same have "\<forall>n \<in> set head_names.
      losses n \<noteq> None \<and> head_loss default_criterion n logits tgts = Inr (the (losses n))"
    by metis
  with s tot show ?thesis by blast
qed

lemma demo_batch_ok: "batch_ok 1 64 uniform_logits all_padding_targets"
  using uniform_head_ok[OF demo_labels_in_range(1) demo_labels_shape(1)]
  by (simp add: batch_ok_def list_all_iff)

text \<open>On the all-padding batch with uniform scores the loss returns.\<close>

theorem total_loss_is_weighted_sum_witness:
  "\<exists>total_loss losses.
     forward default_criterion uniform_logits all_padding_targets = Inr (total_loss, losses) \<and>
     total_loss =
       1 * the (losses ''valid'') + 2 * the (losses ''opcode'') + 1 * the (losses ''mode'') +
       1 * the (losses ''rd'') + 1 * the (losses ''rs1'') + 1 * the (losses ''rs2'') +
       1 / 2 * the (losses ''has_imm'') + 1 / 2 * the (losses ''imm_bin'') \<and>
     losses ''total'' = Some total_loss"
proof -
  have one: "(1::nat) \<le> 1" "(1::nat) \<le> 64" by simp_all
  from forward_defined[OF demo_batch_ok one, of 1 2 1 1 "1 / 2"]
  obtain total_loss losses where
    f: "forward default_criterion uniform_logits all_padding_targets = Inr (total_loss, losses)"
    unfolding default_criterion_def by auto
  from total_loss_is_weighted_sum[OF f] f show ?thesis by blast
qed

text \<open>The error paths are live: a label below the class range, as the loader lets
  through, makes the criterion raise, and so does a label tensor whose element count
  differs from the number of slots scored.\<close>

lemma collect_first_error: "collect (Inl e # rs) = Inl e"
  by simp

lemma loss_raises_on_negative_label:
  "head_loss default_criterion ''opcode'' uniform_logits negative_label_targets = Inl IndexError"
proof -
  have rows: "view_rows (uniform_logits ''opcode'') =
      Inr (map (slot_scores (uniform_logits ''opcode'')) [0..<64])"
    by (simp add: view_rows_def uniform_logits_def head_classes_def NUM_OPCODES_def)
  have up: "[0..<64] = 0 # [1..<64]" by (simp add: upt_conv_Cons)
  have "cross_entropy (slot_scores (uniform_logits ''opcode'') 0) (- 1) = Inl IndexError"
    by (simp add: cross_entropy_def label_ok_def)
  then have "CrossEntropyLoss_none (map (slot_scores (uniform_logits ''opcode'')) [0..<64])
      (data (negative_label_targets ''opcode'')) = Inl IndexError"
    unfolding up by (simp add: CrossEntropyLoss_none_def negative_label_targets_def)
  with rows show ?thesis
    by (simp add: head_loss_def Let_def slot_losses_def default_criterion_def)
qed

lemma loss_raises_on_shape_mismatch:
  "slot_losses default_criterion (uniform_logits ''opcode'')
     \<lparr>dim0 = 1, dim1 = 2, data = [0, 0]\<rparr> = Inl ShapeError"
  by (simp add: slot_losses_def view_rows_def uniform_logits_def head_classes_def
      NUM_OPCODES_def default_criterion_def CrossEntropyLoss_none_def)

section \<open>Properties of the model's output shapes\<close>

lemma conv1d_shape_same:
  "1 \<le> l \<Longrightarrow> conv1d_shape c_in c_out [b, c_in, l] = Inr [b, c_out, l]"
  by (simp add: conv1d_shape_def)

lemma view_infer_split:
  assumes "b \<noteq> 0" and "h * hdim = d" and "d \<noteq> 0"
  shows "view_infer [b] [h, hdim] [b, n, d] = Inr [b, n, h, hdim]"
proof -
  have k: "b * (h * hdim) = b * d" using assms(2) by simp
  have n: "b * (n * d) = n * (b * d)" by simp
  from assms have nz: "b * d \<noteq> 0" by simp
  show ?thesis using nz by (simp add: view_infer_def k n)
qed

lemma view_infer_merge:
  assumes "b \<noteq> 0" and "h * hdim = d" and "d \<noteq> 0"
  shows "view_infer [b] [d] [b, n, h, hdim] = Inr [b, n, d]"
proof -
  have n: "b * (n * (h * hdim)) = n * (b * d)" using assms(2) by simp
  from assms have nz: "b * d \<noteq> 0" by simp
  show ?thesis using nz by (simp add: view_infer_def n)
qed

lemma linear_shape3 [simp]: "linear_shape d d' [b, n, d] = Inr [b, n, d']"
  by (simp add: linear_shape_def)

lemma layer_norm_shape3 [simp]: "layer_norm_shape d [b, n, d] = Inr [b, n, d]"
  by (simp add: layer_norm_shape_def)

lemma broadcast_same: "broadcast [b, n, d] [b, n, d] = Inr [b, n, d]"
  by (simp add: broadcast_def broadcast_dim_def)

text \<open>The attention maps slot vectors (b, n, d) and features (b, l, d) to (b, n, d).\<close>

lemma attention_shape_ok:
  assumes "b \<noteq> 0" and "n_heads * (d div n_heads) = d" and "d \<noteq> 0"
  shows "attention_shape d n_heads [b, n, d] [b, l, d] [b, l, d] = Inr [b, n, d]"
  by (simp add: attention_shape_def Let_def view_infer_split[OF assms]
      view_infer_merge[OF assms] transpose_1_2_def transpose_last_def matmul_shape_def)

lemma attn_layer_shape_ok:
  assumes "b \<noteq> 0" and "num_heads cfg * (hidden_dim cfg div num_heads cfg) = hidden_dim cfg"
    and "hidden_dim cfg \<noteq> 0"
  shows "attn_layer_shape cfg [b, l, hidden_dim cfg] [b, n, hidden_dim cfg] =
           Inr [b, n, hidden_dim cfg]"
  by (simp add: attn_layer_shape_def attention_shape_ok[OF assms] broadcast_same)

lemma pos_encoding_shape_ok:
  "l \<le> max_len \<Longrightarrow> pos_encoding_shape d max_len [b, l, d] = Inr [b, l, d]"
  by (simp add: pos_encoding_shape_def broadcast_def broadcast_dim_def min_def)

lemma encoder_shape_ok:
  assumes "1 \<le> l" and "training cfg \<longrightarrow> b * l \<noteq> 1"
  shows "encoder_shape cfg [b, embed_dim cfg, l] = Inr [b, hidden_dim cfg, l]"
  using assms by (simp add: encoder_shape_def conv1d_shape_same batch_norm1d_shape_def)

lemma embedding_shape_ok:
  "tokens_ok cfg b l x \<Longrightarrow>
   embedding_shape (vocab_size cfg) (embed_dim cfg) x = Inr [b, l, embed_dim cfg]"
  by (simp add: tokens_ok_def labels_shape_def embedding_shape_def)

text \<open>
  C7 (as amended). For a token tensor of shape (B, L) whose ids all lie in the embedding
  table (\<open>0 \<le> id < 261\<close>), with at least one sample, at least one position and no more
  positions than the positional table has rows (\<open>L \<le> max_seq_len\<close>), and more than one
  value per channel when the module is in training mode, the forward pass of the model
  built with the default arguments returns the eight tensors \<open>valid\<close>, \<open>opcode\<close>,
  \<open>mode\<close>, \<open>rd\<close>, \<open>rs1\<close>, \<open>rs2\<close>, \<open>has_imm\<close>, \<open>imm_bin\<close> of shapes (B, 64, C)
  with C = 2, 33, 8, 32, 32, 32, 2, 256.
\<close>

theorem forward_output_shapes:
  assumes "tokens_ok (default_config msl tr) B L x"
    and "1 \<le> B" and "1 \<le> L" and "L \<le> msl" and "tr \<longrightarrow> 1 < B * L"
  shows "forward_shape (default_config msl tr) x =
           Inr [(''valid'', [B, 64, 2]), (''opcode'', [B, 64, 33]), (''mode'', [B, 64, 8]),
                (''rd'', [B, 64, 32]), (''rs1'', [B, 64, 32]), (''rs2'', [B, 64, 32]),
                (''has_imm'', [B, 64, 2]), (''imm_bin'', [B, 64, 256])]"
proof -
  let ?cfg = "default_config msl tr"
  have cfg: "embed_dim ?cfg = 128" "hidden_dim ?cfg = 512" "num_slots ?cfg = 64"
    "num_heads ?cfg = 8" "max_seq_len ?cfg = msl" "training ?cfg = tr" "vocab_size ?cfg = 261"
    by (simp_all add: default_config_def NUM_SLOTS_def)
  from assms(1) have d0: "dim0 x = B" by (simp add: tokens_ok_def labels_shape_def)
  have emb: "embedding_shape 261 128 x = Inr [B, L, 128]"
    using embedding_shape_ok[OF assms(1)] by (simp add: cfg)
  have pos: "pos_encoding_shape 128 msl [B, L, 128] = Inr [B, L, 128]"
    using assms(4) by (rule pos_encoding_shape_ok)
  have one: "tr \<longrightarrow> B * L \<noteq> 1" using assms(5) by auto
  have enc: "encoder_shape ?cfg [B, 128, L] = Inr [B, 512, L]"
    using encoder_shape_ok[of L ?cfg B] assms(3) one unfolding cfg by blast
  have b: "B \<noteq> 0" using assms(2) by simp
  have att: "attn_layer_shape ?cfg [B, L, 512] [B, 64, 512] = Inr [B, 64, 512]"
    using attn_layer_shape_ok[of B ?cfg L 64] b by (simp add: cfg)
  have ffn: "ffn_shape ?cfg [B, 64, 512] = Inr [B, 64, 512]"
    by (simp add: ffn_shape_def cfg)
  show ?thesis
    by (simp add: forward_shape_def Let_def cfg d0 emb pos permute_021_def enc att ffn
        broadcast_same NUM_OPCODES_def NUM_MODES_def NUM_REGISTERS_def IMM_BINS_def)
qed

lemma demo_batch_ok_tokens: "tokens_ok (default_config 512 True) 4 128 demo_batch"
  by (simp add: tokens_ok_def labels_shape_def demo_batch_def default_config_def list_all_iff)

theorem forward_output_shapes_witness:
  "tokens_ok (default_config 512 True) 4 128 demo_batch \<and>
   (1::nat) \<le> 4 \<and> (1::nat) \<le> 128 \<and> (128::nat) \<le> 512 \<and> (1::nat) < 4 * 128 \<and>
   forward_shape (default_config 512 True) demo_batch =
     Inr [(''valid'', [4, 64, 2]), (''opcode'', [4, 64, 33]), (''mode'', [4, 64, 8]),
          (''rd'', [4, 64, 32]), (''rs1'', [4, 64, 32]), (''rs2'', [4, 64, 32]),
          (''has_imm'', [4, 64, 2]), (''imm_bin'', [4, 64, 256])]"
  using forward_output_shapes[OF demo_batch_ok_tokens] demo_batch_ok_tokens by simp

text \<open>
  C7 as stated fails for a sequence longer than the positional table: with the default
  \<open>max_seq_len = 512\<close>, a batch of one prompt of 513 bytes (all ids in the table) is
  embedded to (1, 513, 128) and cannot be added to the 512 rows of the positional signal.
\<close>

theorem forward_rejects_long_sequence:
  "tokens_ok (default_config 512 False) 1 513 long_batch \<and>
   forward_shape (default_config 512 False) long_batch = Inl ShapeError"
  by (simp add: forward_shape_def Let_def default_config_def embedding_shape_def
      pos_encoding_shape_def broadcast_def broadcast_dim_def tokens_ok_def labels_shape_def
      long_batch_def list_all_iff)

text \<open>A token id outside the table makes the lookup raise, whatever the shape.\<close>

lemma forward_rejects_bad_token:
  "forward_shape (default_config 512 False) \<lparr>dim0 = 1, dim1 = 2, data = [65, 261]\<rparr> =
     Inl IndexError"
  by (simp add: forward_shape_def Let_def default_config_def embedding_shape_def)

section \<open>Properties of the token embedding\<close>

lemma model_embedding_fields [simp]:
  "num_embeddings (model_embedding w0) = 261" "embedding_dim (model_embedding w0) = 128"
  "padding_idx (model_embedding w0) = Some 256"
  "weight (model_embedding w0) = w0[256 := replicate 128 0]"
  by (simp_all add: model_embedding_def Embedding_init_def)

lemma embedding_grad_length [simp]: "length (embedding_grad e x g) = num_embeddings e"
  by (simp add: embedding_grad_def)

lemma embedding_grad_padding_row:
  "padding_idx e = Some p \<Longrightarrow> p < num_embeddings e \<Longrightarrow>
   embedding_grad e x g ! p = replicate (embedding_dim e) 0"
  by (simp add: embedding_grad_def)

lemma embedding_grad_other_row:
  "padding_idx e \<noteq> Some r \<Longrightarrow> r < num_embeddings e \<Longrightarrow>
   embedding_grad e x g ! r =
     vsum (embedding_dim e) (map snd (filter (\<lambda>(tok, gp). tok = r) (zip x g)))"
  by (simp add: embedding_grad_def)

lemma gradient_step_row:
  "r < length (weight e) \<Longrightarrow> r < length grad \<Longrightarrow>
   weight (gradient_step lr e grad) ! r = map2 (\<lambda>w gr. w - lr * gr) (weight e ! r) (grad ! r)"
  by (simp add: gradient_step_def)

text \<open>
  C8 (as amended). The embedding table of the model reserves the row of the padding id
  256 and sets it to zeros at construction. That row receives no gradient, whatever the
  tokens and the upstream gradient, and a gradient step leaves it at zero; every other
  row receives the accumulated upstream gradient of the positions that hold its token.
  The lookup itself applies no mask: a padding position reads row 256 as any position
  reads the row of its token.
\<close>

theorem padding_row_zero_and_frozen:
  assumes "length w0 = 261"
  shows "weight (model_embedding w0) ! 256 = replicate 128 0 \<and>
         embedding_grad (model_embedding w0) x g ! 256 = replicate 128 0 \<and>
         weight (gradient_step lr (model_embedding w0)
                   (embedding_grad (model_embedding w0) x g)) ! 256 = replicate 128 0 \<and>
         (\<forall>r < 261. r \<noteq> 256 \<longrightarrow>
            embedding_grad (model_embedding w0) x g ! r =
              vsum 128 (map snd (filter (\<lambda>(tok, gp). tok = r) (zip x g)))) \<and>
         (list_all (\<lambda>tok. tok < 261) x \<longrightarrow>
            embedding_forward (model_embedding w0) x =
              Some (map (\<lambda>tok. weight (model_embedding w0) ! tok) x))"
proof -
  let ?e = "model_embedding w0"
  have w: "weight ?e ! 256 = replicate 128 0" using assms by simp
  have gp: "embedding_grad ?e x g ! 256 = replicate 128 0"
    using embedding_grad_padding_row[of ?e 256 x g] by simp
  have "weight (gradient_step lr ?e (embedding_grad ?e x g)) ! 256 =
          map2 (\<lambda>w gr. w - lr * gr) (weight ?e ! 256) (embedding_grad ?e x g ! 256)"
    using assms by (intro gradient_step_row) simp_all
  then have st: "weight (gradient_step lr ?e (embedding_grad ?e x g)) ! 256 = replicate 128 0"
    unfolding w gp by simp
  have other: "embedding_grad ?e x g ! r =
      vsum 128 (map snd (filter (\<lambda>(tok, gp). tok = r) (zip x g)))"
    if "r < 261" "r \<noteq> 256" for r
    using embedding_grad_other_row[of ?e r x g] that by simp
  have fw: "list_all (\<lambda>tok. tok < 261) x \<longrightarrow>
      embedding_forward ?e x = Some (map (\<lambda>tok. weight ?e ! tok) x)"
    by (simp add: embedding_forward_def)
  from w gp st other fw show ?thesis by blast
qed

theorem padding_row_zero_and_frozen_witness:
  "length (replicate 261 (replicate 128 (1::real))) = 261 \<and> (65::nat) < 261 \<and> (65::nat) \<noteq> 256 \<and>
   weight demo_embedding ! 256 = replicate 128 0 \<and>
   embedding_grad demo_embedding demo_tokens demo_upstream ! 256 = replicate 128 0 \<and>
   embedding_grad demo_embedding demo_tokens demo_upstream ! 65 =
     vsum 128 (map snd (filter (\<lambda>(tok, gp). tok = 65) (zip demo_tokens demo_upstream)))"
proof -
  have l: "length (replicate 261 (replicate 128 (1::real))) = 261" by simp
  from padding_row_zero_and_frozen[OF l, of demo_tokens demo_upstream 1] l
  show ?thesis unfolding demo_embedding_def by auto
qed

text \<open>
  C8 as stated fails: the padding row does not take part in gradient updates as the
  other rows do. In the sequence below the padding token 256 and the byte 65 both stand
  at a position with upstream gradient of ones; row 65 receives that gradient, row 256
  receives zeros.
\<close>

theorem padding_row_gets_no_gradient:
  "demo_tokens = [65, 256] \<and> demo_upstream = [replicate 128 1, replicate 128 1] \<and>
   embedding_grad demo_embedding demo_tokens demo_upstream ! 65 = replicate 128 1 \<and>
   embedding_grad demo_embedding demo_tokens demo_upstream ! 256 = replicate 128 0"
proof -
  have "embedding_grad demo_embedding demo_tokens demo_upstream ! 65 =
      vsum 128 (map snd (filter (\<lambda>(tok, gp). tok = 65) (zip demo_tokens demo_upstream)))"
    using embedding_grad_other_row[of demo_embedding 65 demo_tokens demo_upstream]
    by (simp add: demo_embedding_def)
  then have a: "embedding_grad demo_embedding demo_tokens demo_upstream ! 65 = replicate 128 1"
    by (simp add: demo_tokens_def demo_upstream_def vsum_def vadd_def)
  have b: "embedding_grad demo_embedding demo_tokens demo_upstream ! 256 = replicate 128 0"
    using embedding_grad_padding_row[of demo_embedding 256 demo_tokens demo_upstream]
    by (simp add: demo_embedding_def)
  from a b show ?thesis by (simp add: demo_tokens_def demo_upstream_def)
qed

end
